theory Spec2Isabelle
  imports Complex_Main
begin

section \<open>The product catalogue backend\<close>

text \<open>
  The repository holds five successive versions of one Express server, \<open>server.js\<close>:
  a JSON-body CRUD version (\<open>src/server.js\<close>, and two older ones in
  \<open>src/unnamed/part_001\<close>), a multipart version that uploads files to Cloudinary
  (\<open>src/unnamed/part_000\<close>, and again at the head of \<open>part_001\<close>), and a
  category-aware version (the last file of \<open>part_001\<close>) with a second collection.

  Each route handler becomes a function from the collections and the request to the new
  collections and the reply. The collections are lists of documents in natural order.
  A body that Express or Multer has parsed is taken as typed: a field is present or absent
  (\<open>None\<close> is JavaScript's \<open>undefined\<close>) and its value is of the type that the schema
  gives the path. A path parameter is the text that Express hands to the handler: the cast
  of \<open>req.params.id\<close> to an ObjectId inside \<open>findByIdAndDelete\<close> and
  \<open>findByIdAndUpdate\<close>, and the handler's own \<open>decodeURIComponent\<close> of
  \<open>req.params.name\<close>, are steps of the model and can fail there as they do in the code.
  Mongoose's schema checks that the source declares (\<open>required: true\<close>,
  \<open>unique: true\<close>) are part of the model.
\<close>

subsection \<open>Values, errors and replies\<close>

text \<open>An ObjectId is a 96-bit number. A price is a JavaScript Number; the handlers store
  and return prices and never compute with them. A category position is an integer: the
  handlers only produce list indices and successors of stored positions.\<close>

type_synonym objectid = nat
type_synonym number = rat

text \<open>What is thrown: a failed schema validation with the paths that failed, a unique
  index refusing an insert (Mongo's E11000), the \<open>SyntaxError\<close> of \<open>JSON.parse\<close>, the
  error Cloudinary hands to the upload callback, Mongoose's \<open>CastError\<close> for a value that
  does not cast to the type of its path, and the \<open>URIError\<close> of
  \<open>decodeURIComponent\<close>.\<close>

datatype error =
    ValidationError "string list"
  | DuplicateKey string
  | SyntaxError
  | UploadError string
  | CastError string
  | URIError

text \<open>The schema of part\_000, lines 33--45: a variant is \<open>{size, price, image}\<close>.\<close>

record variant =
  v_size :: "string option"
  v_price :: "number option"
  v_image :: "string option"

text \<open>The category-aware schema (part\_001, lines 406--418) keeps a list of images per
  variant instead.\<close>

record variant_imgs =
  vi_size :: "string option"
  vi_price :: "number option"
  vi_images :: "string list"

text \<open>A stored product. \<open>name\<close> and \<open>category\<close> are \<open>required\<close>, so a stored
  document has them; the array paths default to the empty array.\<close>

record 'v product =
  oid :: objectid
  name :: string
  category :: string
  description :: "string option"
  price :: "number option"
  img :: "string option"
  images :: "string list"
  variants :: "'v list"

text \<open>The object handed to \<open>new Product(...)\<close> or to \<open>findByIdAndUpdate\<close>: every
  key may be missing or \<open>undefined\<close>.\<close>

record 'v product_input =
  in_name :: "string option"
  in_category :: "string option"
  in_description :: "string option"
  in_price :: "number option"
  in_img :: "string option"
  in_images :: "string list option"
  in_variants :: "'v list option"

datatype 'v body =
    ProductBody "'v product"
  | ProductList "'v product list"
  | Message string
  | ErrorMessage string error

text \<open>\<open>Reply status body\<close> is \<open>res.status(status).json(body)\<close>; \<open>NoReply\<close> is a
  handler that is still suspended on a promise that never settles; \<open>Unhandled e\<close> is a
  handler that throws \<open>e\<close> outside its \<open>try\<close>: it has sent no reply, and what the
  client sees is left to Express (version 4 leaves the request unanswered, version 5 answers
  500 from its own error handler).\<close>

datatype 'v reply = Reply nat "'v body" | NoReply | Unhandled error

subsection \<open>JavaScript strings, \<open>parseInt\<close> and array reads\<close>

text \<open>Field names are strings of 8-bit code units, as Multer's parser decodes a
  part's header. \<open>s.startsWith(p)\<close> and \<open>s.split(sep)\<close> for a separator of one
  character: the pieces between the separators, so a string without separator is one
  piece and the empty string is one empty piece.\<close>

definition startsWith :: "string \<Rightarrow> string \<Rightarrow> bool" where
  "startsWith s p = (take (length p) s = p)"

fun split :: "char \<Rightarrow> string \<Rightarrow> string list" where
  "split sep [] = [[]]"
| "split sep (c # cs) =
     (if c = sep then [] # split sep cs
      else (case split sep cs of [] \<Rightarrow> [[c]] | p # ps \<Rightarrow> (c # p) # ps))"

text \<open>\<open>xs[k]\<close> for a list index \<open>k\<close>; \<open>None\<close> is \<open>undefined\<close>.\<close>

definition at_index :: "'a list \<Rightarrow> nat \<Rightarrow> 'a option" where
  "at_index xs k = (if k < length xs then Some (xs ! k) else None)"

text \<open>\<open>parseInt(s)\<close> with no radix (ECMAScript, \<open>parseInt (string, radix)\<close>): leading
  white space is dropped, then a sign, then \<open>0x\<close> or \<open>0X\<close> selects radix 16 (else
  10), then the longest run of digits of that radix is read; no digit gives \<open>NaN\<close>,
  here \<open>None\<close>. \<open>parseInt(undefined)\<close> reads the text \<open>undefined\<close> and is \<open>NaN\<close>.
  The result is a mathematical integer: a Number large enough to differ from it is beyond
  the length of every array, and \<open>-0\<close> reads the same element as \<open>0\<close>.\<close>

definition isWhiteSpace :: "char \<Rightarrow> bool" where
  "isWhiteSpace c = ((of_char c :: nat) \<in> {9, 10, 11, 12, 13, 32, 160})"

definition digitValue :: "nat \<Rightarrow> char \<Rightarrow> nat option" where
  "digitValue R c =
     (let n = (of_char c :: nat);
          d = (if 48 \<le> n \<and> n \<le> 57 then Some (n - 48)
               else if 97 \<le> n \<and> n \<le> 122 then Some (n - 87)
               else if 65 \<le> n \<and> n \<le> 90 then Some (n - 55)
               else None)
      in case d of None \<Rightarrow> None | Some v \<Rightarrow> if v < R then Some v else None)"

definition digitsValue :: "nat \<Rightarrow> string \<Rightarrow> nat" where
  "digitsValue R Z = foldl (\<lambda>a c. a * R + (case digitValue R c of None \<Rightarrow> 0 | Some v \<Rightarrow> v)) 0 Z"

definition parseInt :: "string option \<Rightarrow> int option" where
  "parseInt arg =
     (case arg of
        None \<Rightarrow> None
      | Some s \<Rightarrow>
          (let S = dropWhile isWhiteSpace s;
               negative = (S \<noteq> [] \<and> hd S = CHR ''-'');
               S1 = (if S \<noteq> [] \<and> (hd S = CHR ''+'' \<or> hd S = CHR ''-'') then tl S else S);
               hex = (take 2 S1 = ''0x'' \<or> take 2 S1 = ''0X'');
               R = (if hex then 16 else 10);
               S2 = (if hex then drop 2 S1 else S1);
               Z = takeWhile (\<lambda>c. digitValue R c \<noteq> None) S2
           in if Z = [] then None
              else Some ((if negative then - 1 else 1) * int (digitsValue R Z))))"

text \<open>\<open>variants[variantIndex]\<close> for a Number \<open>variantIndex\<close>: an element when the
  number is an index of the array, \<open>undefined\<close> for \<open>NaN\<close>, a negative number or one
  past the end.\<close>

definition at_number :: "'a list \<Rightarrow> int option \<Rightarrow> 'a option" where
  "at_number xs n =
     (case n of None \<Rightarrow> None | Some k \<Rightarrow> if 0 \<le> k then at_index xs (nat k) else None)"








subsection \<open>Mongoose on the Product collection\<close>

text \<open>\<open>required: true\<close> on a String path: the value must be present and, for
  strings, not empty.\<close>

definition required_paths :: "'v product_input \<Rightarrow> string list" where
  "required_paths inp =
     (if in_name inp = None \<or> in_name inp = Some [] then [''name''] else []) @
     (if in_category inp = None \<or> in_category inp = Some [] then [''category''] else [])"

text \<open>\<open>new Product(inp)\<close> followed by \<open>.save()\<close>: the document gets the identifier
  \<open>i\<close> that the driver generated, is validated and inserted. The \<open>_id\<close> index is
  unique.\<close>

definition new_Product :: "objectid \<Rightarrow> 'v product_input \<Rightarrow> 'v product" where
  "new_Product i inp =
     \<lparr> oid = i,
       name = (case in_name inp of None \<Rightarrow> [] | Some n \<Rightarrow> n),
       category = (case in_category inp of None \<Rightarrow> [] | Some c \<Rightarrow> c),
       description = in_description inp,
       price = in_price inp,
       img = in_img inp,
       images = (case in_images inp of None \<Rightarrow> [] | Some xs \<Rightarrow> xs),
       variants = (case in_variants inp of None \<Rightarrow> [] | Some vs \<Rightarrow> vs) \<rparr>"

definition save_product ::
  "objectid \<Rightarrow> 'v product_input \<Rightarrow> 'v product list \<Rightarrow> error + ('v product \<times> 'v product list)" where
  "save_product i inp ps =
     (if required_paths inp \<noteq> [] then Inl (ValidationError (required_paths inp))
      else if list_ex (\<lambda>q. oid q = i) ps then Inl (DuplicateKey ''_id'')
      else Inr (new_Product i inp, ps @ [new_Product i inp]))"

text \<open>The cast of a string to an ObjectId: 24 hexadecimal digits, read as a number. Any
  other string throws (the bson library from version 5 on; version 4 takes a string of 12
  characters as twelve bytes as well, and no statement below is about such a string).\<close>

definition isHexDigit :: "char \<Rightarrow> bool" where
  "isHexDigit c = (digitValue 16 c \<noteq> None)"

definition castObjectId :: "string \<Rightarrow> objectid option" where
  "castObjectId s = (if length s = 24 \<and> list_all isHexDigit s then Some (digitsValue 16 s) else None)"

text \<open>\<open>Product.findByIdAndDelete(id)\<close>: the \<open>id\<close> is cast to an ObjectId, which throws
  a \<open>CastError\<close> when it is none; the first document with that identifier is removed and
  returned; \<open>None\<close> is the \<open>null\<close> of no match.\<close>

fun delete_first :: "('a \<Rightarrow> bool) \<Rightarrow> 'a list \<Rightarrow> 'a list" where
  "delete_first P [] = []"
| "delete_first P (x # xs) = (if P x then xs else x # delete_first P xs)"

fun update_first :: "('a \<Rightarrow> bool) \<Rightarrow> ('a \<Rightarrow> 'a) \<Rightarrow> 'a list \<Rightarrow> 'a list" where
  "update_first P f [] = []"
| "update_first P f (x # xs) = (if P x then f x # xs else x # update_first P f xs)"

definition findByIdAndDelete ::
  "string \<Rightarrow> 'v product list \<Rightarrow> error + ('v product option \<times> 'v product list)" where
  "findByIdAndDelete params_id ps =
     (case castObjectId params_id of
        None \<Rightarrow> Inl (CastError ''_id'')
      | Some i \<Rightarrow> Inr (find (\<lambda>q. oid q = i) ps, delete_first (\<lambda>q. oid q = i) ps))"

text \<open>\<open>Product.findByIdAndUpdate(id, upd, {new: true})\<close>: the keys of \<open>upd\<close> are
  applied as a \<open>$set\<close>. Mongoose (since version 6) strips the keys whose value is
  \<open>undefined\<close> from an update, so such a path keeps what is stored. Update validators
  are off unless asked for. The \<open>id\<close> is cast as in \<open>findByIdAndDelete\<close>.\<close>

definition apply_update :: "'v product_input \<Rightarrow> 'v product \<Rightarrow> 'v product" where
  "apply_update upd p =
     p \<lparr> name := (case in_name upd of None \<Rightarrow> name p | Some n \<Rightarrow> n),
         category := (case in_category upd of None \<Rightarrow> category p | Some c \<Rightarrow> c),
         description := (case in_description upd of None \<Rightarrow> description p | Some d \<Rightarrow> Some d),
         price := (case in_price upd of None \<Rightarrow> price p | Some x \<Rightarrow> Some x),
         img := (case in_img upd of None \<Rightarrow> img p | Some x \<Rightarrow> Some x),
         images := (case in_images upd of None \<Rightarrow> images p | Some xs \<Rightarrow> xs),
         variants := (case in_variants upd of None \<Rightarrow> variants p | Some vs \<Rightarrow> vs) \<rparr>"

definition findByIdAndUpdate ::
  "string \<Rightarrow> 'v product_input \<Rightarrow> 'v product list
     \<Rightarrow> error + ('v product option \<times> 'v product list)" where
  "findByIdAndUpdate params_id upd ps =
     (case castObjectId params_id of
        None \<Rightarrow> Inl (CastError ''_id'')
      | Some i \<Rightarrow>
          Inr (map_option (apply_update upd) (find (\<lambda>q. oid q = i) ps),
               update_first (\<lambda>q. oid q = i) (apply_update upd) ps))"

subsection \<open>Uploads and \<open>Promise.all\<close>\<close>

record multer_file =
  fieldname :: string
  buffer :: string

record upload_result =
  secure_url :: string

text \<open>What Cloudinary passes to the callback of \<open>upload_stream\<close>: \<open>(error, result)\<close>.
  \<open>uploadToCloudinary\<close> (part\_000, lines 59--71) rejects with the error when there is
  one and resolves with the result otherwise. \<open>answer\<close> is the service at this call:
  what it calls back with for the buffer it is sent.\<close>

type_synonym callback_args = "string option \<times> upload_result"

definition uploadToCloudinary :: "(string \<Rightarrow> callback_args) \<Rightarrow> string \<Rightarrow> error + upload_result" where
  "uploadToCloudinary answer fileBuffer =
     (case fst (answer fileBuffer) of
        Some e \<Rightarrow> Inl (UploadError e)
      | None \<Rightarrow> Inr (snd (answer fileBuffer)))"

datatype 'a settled = Pending | Rejected error | Fulfilled 'a

text \<open>\<open>Promise.all(promises)\<close>. \<open>outs ! i\<close> is how the \<open>i\<close>-th promise settles and
  \<open>ord\<close> lists the promises in the order in which they settle. A fulfilment is stored
  at the promise's own index; the first rejection rejects the whole; when every slot is
  filled the array of values is the result, and while one is empty the join is pending.\<close>

fun join_all :: "(error + 'a) list \<Rightarrow> 'a option list \<Rightarrow> nat list \<Rightarrow> 'a list settled" where
  "join_all outs slots [] =
     (case those slots of None \<Rightarrow> Pending | Some vs \<Rightarrow> Fulfilled vs)"
| "join_all outs slots (i # ord) =
     (if i < length outs then
        (case outs ! i of
           Inl e \<Rightarrow> Rejected e
         | Inr v \<Rightarrow> join_all outs (slots[i := Some v]) ord)
      else join_all outs slots ord)"

definition Promise_all :: "(error + 'a) list \<Rightarrow> nat list \<Rightarrow> 'a list settled" where
  "Promise_all outs ord = join_all outs (replicate (length outs) None) ord"

subsection \<open>The multipart handlers (part\_000; the first file of part\_001 is the same)\<close>

text \<open>A text field of the form that the handler reads as JSON,
  \<open>req.body.f ? JSON.parse(req.body.f) : dflt\<close>: the field is missing or empty, or its
  text does not parse, or it parses to a value. The value of \<open>variants\<close> is a list of
  variant objects, so that \<open>variants[k]\<close> is truthy exactly when \<open>k\<close> is an index of
  the list; the value of \<open>existingImages\<close> is a list of URLs. \<open>price\<close> is the Number
  that the schema casts the form's text to.\<close>

datatype 'a json_field = Missing | Unparsable | Json 'a

definition parse_or :: "'a \<Rightarrow> 'a json_field \<Rightarrow> error + 'a" where
  "parse_or dflt f = (case f of Missing \<Rightarrow> Inr dflt | Unparsable \<Rightarrow> Inl SyntaxError | Json v \<Rightarrow> Inr v)"

record multipart_request =
  body_name :: "string option"
  body_category :: "string option"
  body_description :: "string option"
  body_price :: "number option"
  body_variants :: "variant list json_field"
  body_existingImages :: "string list json_field"
  files :: "multer_file list"

text \<open>The body of \<open>uploadResults.forEach((result, index) => ...)\<close> (part\_000, lines
  106--117): the pair is the list of main image URLs and the variants.\<close>

definition variantIndex :: "string \<Rightarrow> int option" where
  "variantIndex originalField = parseInt (at_index (split CHR ''_'' originalField) 2)"

definition route_upload ::
  "multer_file \<times> upload_result \<Rightarrow> string list \<times> variant list \<Rightarrow> string list \<times> variant list" where
  "route_upload fr acc =
     (let originalField = fieldname (fst fr); url = secure_url (snd fr);
          mainImageUrls = fst acc; vs = snd acc
      in if originalField = ''images'' then (mainImageUrls @ [url], vs)
         else if startsWith originalField ''variant_image_'' then
           (case at_number vs (variantIndex originalField) of
              None \<Rightarrow> (mainImageUrls, vs)
            | Some v \<Rightarrow>
                (mainImageUrls, vs[nat (the (variantIndex originalField)) := v\<lparr>v_image := Some url\<rparr>]))
         else (mainImageUrls, vs))"

definition route_all ::
  "multer_file list \<Rightarrow> upload_result list \<Rightarrow> string list \<times> variant list \<Rightarrow> string list \<times> variant list" where
  "route_all fs uploadResults acc = fold route_upload (zip fs uploadResults) acc"

text \<open>The object built after the uploads (lines 120--128 and 169--176).\<close>

definition product_data ::
  "multipart_request \<Rightarrow> string list \<times> variant list \<Rightarrow> variant product_input" where
  "product_data req acc =
     \<lparr> in_name = body_name req,
       in_category = body_category req,
       in_description = body_description req,
       in_price = (if length (snd acc) > 0 then None else body_price req),
       in_img = None,
       in_images = Some (fst acc),
       in_variants = (if length (snd acc) > 0 then Some (snd acc) else None) \<rparr>"

text \<open>\<open>POST /api/products\<close> (part\_000, lines 91--137). \<open>i\<close> is the identifier of the
  new document, \<open>cloud k\<close> is Cloudinary at the upload of the \<open>k\<close>-th file of
  \<open>req.files\<close>, and \<open>ord\<close> is the order in which the uploads complete.\<close>

definition uploadPromises :: "(nat \<Rightarrow> string \<Rightarrow> callback_args) \<Rightarrow> multer_file list \<Rightarrow> (error + upload_result) list" where
  "uploadPromises cloud fs = map (\<lambda>k. uploadToCloudinary (cloud k) (buffer (fs ! k))) [0..<length fs]"

definition post_products_multipart ::
  "objectid \<Rightarrow> (nat \<Rightarrow> string \<Rightarrow> callback_args) \<Rightarrow> nat list \<Rightarrow> multipart_request \<Rightarrow> variant product list
     \<Rightarrow> variant product list \<times> variant reply" where
  "post_products_multipart i cloud ord req ps =
     (case parse_or [] (body_variants req) of
        Inl e \<Rightarrow> (ps, Reply 500 (Message ''Server error while creating product.''))
      | Inr vs \<Rightarrow>
          (case Promise_all (uploadPromises cloud (files req)) ord of
             Pending \<Rightarrow> (ps, NoReply)
           | Rejected e \<Rightarrow> (ps, Reply 500 (Message ''Server error while creating product.''))
           | Fulfilled uploadResults \<Rightarrow>
               (case save_product i (product_data req (route_all (files req) uploadResults ([], vs))) ps of
                  Inl e \<Rightarrow> (ps, Reply 500 (Message ''Server error while creating product.''))
                | Inr (newProduct, ps') \<Rightarrow> (ps', Reply 201 (ProductBody newProduct)))))"

text \<open>\<open>PUT /api/products/:id\<close> (part\_000, lines 143--190). \<open>params_id\<close> is
  \<open>req.params.id\<close>.\<close>

definition put_products_multipart ::
  "string \<Rightarrow> (nat \<Rightarrow> string \<Rightarrow> callback_args) \<Rightarrow> nat list \<Rightarrow> multipart_request \<Rightarrow> variant product list
     \<Rightarrow> variant product list \<times> variant reply" where
  "put_products_multipart params_id cloud ord req ps =
     (case parse_or [] (body_variants req) of
        Inl e \<Rightarrow> (ps, Reply 500 (Message ''Server error while updating product.''))
      | Inr vs \<Rightarrow>
          (case parse_or [] (body_existingImages req) of
             Inl e \<Rightarrow> (ps, Reply 500 (Message ''Server error while updating product.''))
           | Inr existingImages \<Rightarrow>
               (case Promise_all (uploadPromises cloud (files req)) ord of
                  Pending \<Rightarrow> (ps, NoReply)
                | Rejected e \<Rightarrow> (ps, Reply 500 (Message ''Server error while updating product.''))
                | Fulfilled uploadResults \<Rightarrow>
                    (case findByIdAndUpdate params_id
                            (product_data req (route_all (files req) uploadResults (existingImages, vs))) ps of
                       Inl e \<Rightarrow> (ps, Reply 500 (Message ''Server error while updating product.''))
                     | Inr (None, ps') \<Rightarrow> (ps', Reply 404 (Message ''Product not found.''))
                     | Inr (Some updatedProduct, ps') \<Rightarrow>
                         (ps', Reply 200 (ProductBody updatedProduct))))))"

subsection \<open>The JSON handlers (\<open>src/server.js\<close>)\<close>

text \<open>\<open>GET /api/products\<close> (lines 51--58): \<open>Product.find({})\<close> is the whole
  collection.\<close>

definition get_products :: "'v product list \<Rightarrow> 'v reply" where
  "get_products ps = Reply 200 (ProductList ps)"

text \<open>\<open>POST /api/products\<close> (lines 61--69): the body is the document.\<close>

definition post_products ::
  "objectid \<Rightarrow> 'v product_input \<Rightarrow> 'v product list \<Rightarrow> 'v product list \<times> 'v reply" where
  "post_products i req_body ps =
     (case save_product i req_body ps of
        Inl e \<Rightarrow> (ps, Reply 400 (ErrorMessage [] e))
      | Inr (newProduct, ps') \<Rightarrow> (ps', Reply 201 (ProductBody newProduct)))"

text \<open>\<open>DELETE /api/products/:id\<close> (lines 85--95; the same in part\_000, lines
  194--204). \<open>params_id\<close> is \<open>req.params.id\<close>; what \<open>findByIdAndDelete\<close> throws is
  caught and answered with 500 and the error's message.\<close>

definition delete_products :: "string \<Rightarrow> 'v product list \<Rightarrow> 'v product list \<times> 'v reply" where
  "delete_products params_id ps =
     (case findByIdAndDelete params_id ps of
        Inl e \<Rightarrow> (ps, Reply 500 (ErrorMessage [] e))
      | Inr (None, ps') \<Rightarrow> (ps', Reply 404 (Message ''Product not found''))
      | Inr (Some product, ps') \<Rightarrow> (ps', Reply 200 (Message ''Product deleted successfully'')))"

subsection \<open>The category-aware handlers (the last file of part\_001)\<close>

record category_doc =
  cname :: string
  position :: int

record 'v db =
  Product :: "'v product list"
  Category :: "category_doc list"

text \<open>\<open>Category.findOne({ name })\<close>. A missing name matches no document: every
  category has one.\<close>

definition Category_findOne :: "string option \<Rightarrow> category_doc list \<Rightarrow> category_doc option" where
  "Category_findOne n cats =
     (case n of None \<Rightarrow> None | Some categoryName \<Rightarrow> find (\<lambda>c. cname c = categoryName) cats)"

text \<open>\<open>Category.findOne().sort('-position')\<close>: a document of greatest position.\<close>

definition Category_findOne_sort_desc :: "category_doc list \<Rightarrow> category_doc option" where
  "Category_findOne_sort_desc cats =
     (case cats of
        [] \<Rightarrow> None
      | c # cs \<Rightarrow> Some (fold (\<lambda>d best. if position best < position d then d else best) cs c))"

text \<open>\<open>new Category({ name, position }).save()\<close>: \<open>name\<close> is required and unique.\<close>

definition save_category ::
  "string option \<Rightarrow> int \<Rightarrow> category_doc list \<Rightarrow> error + (category_doc \<times> category_doc list)" where
  "save_category n pos cats =
     (case n of
        None \<Rightarrow> Inl (ValidationError [''name''])
      | Some categoryName \<Rightarrow>
          if categoryName = [] then Inl (ValidationError [''name''])
          else if list_ex (\<lambda>c. cname c = categoryName) cats then Inl (DuplicateKey ''name'')
          else Inr (\<lparr>cname = categoryName, position = pos\<rparr>,
                    cats @ [\<lparr>cname = categoryName, position = pos\<rparr>]))"

text \<open>\<open>findOrCreateCategory\<close> (lines 423--432).\<close>

definition findOrCreateCategory ::
  "string option \<Rightarrow> category_doc list \<Rightarrow> error + (category_doc \<times> category_doc list)" where
  "findOrCreateCategory categoryName cats =
     (case Category_findOne categoryName cats of
        Some found \<Rightarrow> Inr (found, cats)
      | None \<Rightarrow>
          (let highestPositionCategory = Category_findOne_sort_desc cats;
               newPosition = (case highestPositionCategory of
                                Some h \<Rightarrow> position h + 1
                              | None \<Rightarrow> 0)
           in save_category categoryName newPosition cats))"

text \<open>\<open>POST /api/products\<close> (lines 458--467). The category is written before the
  product is saved, and stays when the product is refused.\<close>

definition post_products_cat ::
  "objectid \<Rightarrow> 'v product_input \<Rightarrow> 'v db \<Rightarrow> 'v db \<times> 'v reply" where
  "post_products_cat i req_body s =
     (case findOrCreateCategory (in_category req_body) (Category s) of
        Inl e \<Rightarrow> (s, Reply 400 (ErrorMessage ''Failed to add product: '' e))
      | Inr (c, cats') \<Rightarrow>
          (case save_product i req_body (Product s) of
             Inl e \<Rightarrow> (s\<lparr>Category := cats'\<rparr>, Reply 400 (ErrorMessage ''Failed to add product: '' e))
           | Inr (newProduct, ps') \<Rightarrow>
               (\<lparr>Product = ps', Category = cats'\<rparr>, Reply 201 (ProductBody newProduct))))"

text \<open>\<open>PUT /api/categories/order\<close> (lines 484--495). One
  \<open>Category.updateOne({ name }, { $set: { position: index } })\<close> is issued per name, all
  at once; \<open>ord\<close> is the order in which the store carries them out. \<open>updateOne\<close>
  changes the first match and reports no error when nothing matches.\<close>

definition updateOne_position :: "string \<Rightarrow> int \<Rightarrow> category_doc list \<Rightarrow> category_doc list" where
  "updateOne_position categoryName index cats =
     update_first (\<lambda>c. cname c = categoryName) (\<lambda>c. c\<lparr>position := index\<rparr>) cats"

text \<open>The \<open>index\<close>-th of the updates that \<open>orderedCategories.map\<close> issues.\<close>

definition set_position_at :: "string list \<Rightarrow> nat \<Rightarrow> category_doc list \<Rightarrow> category_doc list" where
  "set_position_at orderedCategories index cats =
     (if index < length orderedCategories
      then updateOne_position (orderedCategories ! index) (int index) cats
      else cats)"

definition put_categories_order :: "nat list \<Rightarrow> string list \<Rightarrow> 'v db \<Rightarrow> 'v db \<times> 'v reply" where
  "put_categories_order ord orderedCategories s =
     (let promises = map Inr [0..<length orderedCategories];
          cats' = fold (set_position_at orderedCategories) ord (Category s)
      in (s\<lparr>Category := cats'\<rparr>,
          case Promise_all promises ord of
            Pending \<Rightarrow> NoReply
          | Rejected e \<Rightarrow> Reply 500 (ErrorMessage ''Failed to update category order: '' e)
          | Fulfilled rs \<Rightarrow> Reply 200 (Message ''Category order updated successfully.'')))"





text \<open>\<open>DELETE /api/products/:id\<close> (lines 527--541). What \<open>findByIdAndDelete\<close>
  throws is caught and answered with 500.\<close>

definition countDocuments_category :: "string \<Rightarrow> 'v product list \<Rightarrow> nat" where
  "countDocuments_category c ps = length (filter (\<lambda>p. category p = c) ps)"

definition Category_deleteOne :: "string \<Rightarrow> category_doc list \<Rightarrow> category_doc list" where
  "Category_deleteOne n cats = delete_first (\<lambda>c. cname c = n) cats"

definition delete_products_cat :: "string \<Rightarrow> 'v db \<Rightarrow> 'v db \<times> 'v reply" where
  "delete_products_cat params_id s =
     (case findByIdAndDelete params_id (Product s) of
        Inl e \<Rightarrow> (s, Reply 500 (ErrorMessage ''Failed to delete product: '' e))
      | Inr (None, ps') \<Rightarrow> (s\<lparr>Product := ps'\<rparr>, Reply 404 (Message ''Product not found''))
      | Inr (Some product, ps') \<Rightarrow>
          (let remainingProducts = countDocuments_category (category product) ps';
               cats' = (if remainingProducts = 0
                        then Category_deleteOne (category product) (Category s)
                        else Category s)
           in (\<lparr>Product = ps', Category = cats'\<rparr>,
               Reply 200 (Message ''Product deleted successfully''))))"

subsection \<open>Vocabulary of the statements\<close>

text \<open>A category name is listed when one of the updates that are carried out is for it.\<close>

definition listed_in :: "string list \<Rightarrow> nat list \<Rightarrow> string \<Rightarrow> bool" where
  "listed_in names ord c = (\<exists>k\<in>set ord. k < length names \<and> names ! k = c)"

text \<open>What Cloudinary answers to the upload of the \<open>k\<close>-th file: whether it reports an
  error, and the result it passes otherwise.\<close>

definition upload_fails :: "(nat \<Rightarrow> string \<Rightarrow> callback_args) \<Rightarrow> multer_file list \<Rightarrow> nat \<Rightarrow> bool" where
  "upload_fails cloud fs k = (fst (cloud k (buffer (fs ! k))) \<noteq> None)"

definition uploaded :: "(nat \<Rightarrow> string \<Rightarrow> callback_args) \<Rightarrow> multer_file list \<Rightarrow> nat \<Rightarrow> upload_result" where
  "uploaded cloud fs k = snd (cloud k (buffer (fs ! k)))"

text \<open>A file is routed to the variant at index \<open>j\<close> when its field name starts with
  \<open>variant_image_\<close> and the number read from it is \<open>j\<close>. Besides
  \<open>variant_image_0\<close>, the names \<open>variant_image_00\<close>, \<open>variant_image_0_b\<close> and
  \<open>variant_image_0x0\<close> are all routed to index 0.\<close>

definition routes_to :: "multer_file \<Rightarrow> nat \<Rightarrow> bool" where
  "routes_to f j =
     (startsWith (fieldname f) ''variant_image_'' \<and> variantIndex (fieldname f) = Some (int j))"

text \<open>The answers of Cloudinary to the uploads of a request from which the \<open>n\<close>-th file
  is taken away: the later uploads move up by one.\<close>

definition without_upload :: "nat \<Rightarrow> (nat \<Rightarrow> string \<Rightarrow> callback_args) \<Rightarrow> nat \<Rightarrow> string \<Rightarrow> callback_args" where
  "without_upload n cloud k = (if k < n then cloud k else cloud (Suc k))"

section \<open>Properties\<close>

subsection \<open>Removing and updating the first match\<close>

lemma delete_first_no_match: "\<forall>x\<in>set xs. \<not> P x \<Longrightarrow> delete_first P xs = xs"
  by (induction xs) simp_all

lemma delete_first_distinct_key:
  "distinct (map f xs) \<Longrightarrow> delete_first (\<lambda>x. f x = k) xs = filter (\<lambda>x. f x \<noteq> k) xs"
proof (induction xs)
  case Nil
  then show ?case by simp
next
  case (Cons x xs)
  show ?case
  proof (cases "f x = k")
    case True
    with Cons.prems have "\<forall>y\<in>set xs. f y \<noteq> k" by (auto simp: image_iff)
    then have "filter (\<lambda>x. f x \<noteq> k) xs = xs" by (simp add: filter_id_conv)
    with True show ?thesis by simp
  next
    case False
    with Cons show ?thesis by simp
  qed
qed

subsection \<open>Deleting a product\<close>

lemma castObjectId_abc: "castObjectId ''abc'' = None"
  by code_simp

lemma castObjectId_9: "castObjectId ''000000000000000000000009'' = Some 9"
  by code_simp

lemma castObjectId_3: "castObjectId ''000000000000000000000003'' = Some 3"
  by code_simp

lemma castObjectId_4: "castObjectId ''000000000000000000000004'' = Some 4"
  by code_simp

text \<open>
  \<^bold>\<open>C6.\<close> When the identifier matches no product document, \<open>DELETE /api/products/:id\<close>
  leaves the product collection as it was, and in the category-aware version the category
  collection, too. The answer is 404 when the identifier is a well-formed ObjectId. An
  identifier that does not cast to an ObjectId matches no document either, and is answered
  with 500 from the handler's \<open>catch\<close>: \<open>DELETE /api/products/abc\<close> is not answered
  with 404.
\<close>

theorem delete_missing_product:
  assumes "\<forall>q\<in>set ps. castObjectId params_id \<noteq> Some (oid q)"
  shows "delete_products params_id ps
           = (ps, if castObjectId params_id = None
                  then Reply 500 (ErrorMessage [] (CastError ''_id''))
                  else Reply 404 (Message ''Product not found''))
       \<and> delete_products_cat params_id \<lparr>Product = ps, Category = cats\<rparr>
           = (\<lparr>Product = ps, Category = cats\<rparr>,
              if castObjectId params_id = None
              then Reply 500 (ErrorMessage ''Failed to delete product: '' (CastError ''_id''))
              else Reply 404 (Message ''Product not found''))"
proof (cases "castObjectId params_id")
  case None
  then show ?thesis
    by (simp add: delete_products_def delete_products_cat_def findByIdAndDelete_def)
next
  case (Some i)
  with assms have no: "\<forall>q\<in>set ps. oid q \<noteq> i" by auto
  then have "find (\<lambda>q. oid q = i) ps = None"
    by (simp add: find_None_iff)
  moreover from no have "delete_first (\<lambda>q. oid q = i) ps = ps"
    by (simp add: delete_first_no_match)
  ultimately show ?thesis
    using Some by (simp add: delete_products_def delete_products_cat_def findByIdAndDelete_def)
qed

theorem delete_missing_product_witness:
  "delete_products ''000000000000000000000009''
      [\<lparr>oid = 4, name = ''Tea'', category = ''Drinks'', description = None,
        price = Some 5, img = None, images = [], variants = ([] :: variant list)\<rparr>]
     = ([\<lparr>oid = 4, name = ''Tea'', category = ''Drinks'', description = None,
        price = Some 5, img = None, images = [], variants = []\<rparr>],
        Reply 404 (Message ''Product not found''))
   \<and> delete_products_cat ''000000000000000000000009''
        \<lparr>Product = [\<lparr>oid = 4, name = ''Tea'', category = ''Drinks'',
        description = None, price = Some 5, img = None, images = [], variants = ([] :: variant list)\<rparr>],
        Category = [\<lparr>cname = ''Drinks'', position = 0\<rparr>]\<rparr>
     = (\<lparr>Product = [\<lparr>oid = 4, name = ''Tea'', category = ''Drinks'',
        description = None, price = Some 5, img = None, images = [], variants = []\<rparr>],
        Category = [\<lparr>cname = ''Drinks'', position = 0\<rparr>]\<rparr>,
        Reply 404 (Message ''Product not found''))"
  using delete_missing_product [of "[\<lparr>oid = 4, name = ''Tea'', category = ''Drinks'', description = None,
        price = Some 5, img = None, images = [], variants = ([] :: variant list)\<rparr>]"
        "''000000000000000000000009''" "[\<lparr>cname = ''Drinks'', position = 0\<rparr>]"]
  by (simp add: castObjectId_9)

text \<open>The identifier \<open>abc\<close> matches no document of a collection that holds one product,
  and both handlers answer 500 where the statement without the proviso asks for 404.\<close>

theorem delete_malformed_identifier_counterexample:
  "\<not> list_ex (\<lambda>q. castObjectId ''abc'' = Some (oid q))
        [\<lparr>oid = 4, name = ''Tea'', category = ''Drinks'', description = None,
          price = Some 5, img = None, images = [], variants = ([] :: variant list)\<rparr>]
   \<and> delete_products ''abc''
        [\<lparr>oid = 4, name = ''Tea'', category = ''Drinks'', description = None,
          price = Some 5, img = None, images = [], variants = ([] :: variant list)\<rparr>]
     = ([\<lparr>oid = 4, name = ''Tea'', category = ''Drinks'', description = None,
          price = Some 5, img = None, images = [], variants = []\<rparr>],
        Reply 500 (ErrorMessage [] (CastError ''_id'')))
   \<and> delete_products ''abc''
        [\<lparr>oid = 4, name = ''Tea'', category = ''Drinks'', description = None,
          price = Some 5, img = None, images = [], variants = ([] :: variant list)\<rparr>]
     \<noteq> ([\<lparr>oid = 4, name = ''Tea'', category = ''Drinks'', description = None,
          price = Some 5, img = None, images = [], variants = []\<rparr>],
        Reply 404 (Message ''Product not found''))
   \<and> snd (delete_products_cat ''abc''
        \<lparr>Product = [\<lparr>oid = 4, name = ''Tea'', category = ''Drinks'', description = None,
          price = Some 5, img = None, images = [], variants = ([] :: variant list)\<rparr>],
         Category = [\<lparr>cname = ''Drinks'', position = 0\<rparr>]\<rparr>)
     = Reply 500 (ErrorMessage ''Failed to delete product: '' (CastError ''_id''))"
  by (simp add: castObjectId_abc delete_products_def delete_products_cat_def findByIdAndDelete_def)

text \<open>
  \<^bold>\<open>C3.\<close> In the category-aware version, deleting a product that exists answers 200 and
  removes the product. When no remaining product has the deleted product's category, the
  category document of that name is deleted as well; when another product still has that
  category, the category collection is left as it is. The unique indexes on \<open>_id\<close> and
  on the category name are the hypotheses.
\<close>

theorem delete_product_and_empty_category:
  assumes "find (\<lambda>q. castObjectId params_id = Some (oid q)) (Product s) = Some p"
    and "distinct (map oid (Product s))"
    and "distinct (map cname (Category s))"
  shows "snd (delete_products_cat params_id s) = Reply 200 (Message ''Product deleted successfully'')
       \<and> Product (fst (delete_products_cat params_id s))
           = filter (\<lambda>q. oid q \<noteq> oid p) (Product s)
       \<and> Category (fst (delete_products_cat params_id s))
           = (if \<exists>q\<in>set (Product s). oid q \<noteq> oid p \<and> category q = category p
              then Category s
              else filter (\<lambda>c. cname c \<noteq> category p) (Category s))"
proof -
  from assms(1) have cast: "castObjectId params_id = Some (oid p)"
    by (auto simp: find_Some_iff)
  have "find (\<lambda>q. oid q = oid p) (Product s)
          = find (\<lambda>q. castObjectId params_id = Some (oid q)) (Product s)"
    by (rule find_cong) (auto simp: cast)
  with assms(1) have found: "find (\<lambda>q. oid q = oid p) (Product s) = Some p" by simp
  let ?ps' = "delete_first (\<lambda>q. oid q = oid p) (Product s)"
  have ps': "?ps' = filter (\<lambda>q. oid q \<noteq> oid p) (Product s)"
    using assms(2) by (rule delete_first_distinct_key)
  have count: "countDocuments_category (category p) ?ps' = 0
                 \<longleftrightarrow> \<not> (\<exists>q\<in>set (Product s). oid q \<noteq> oid p \<and> category q = category p)"
    unfolding ps' countDocuments_category_def by (auto simp: filter_empty_conv)
  have cats: "Category_deleteOne (category p) (Category s)
                = filter (\<lambda>c. cname c \<noteq> category p) (Category s)"
    unfolding Category_deleteOne_def using assms(3) by (rule delete_first_distinct_key)
  show ?thesis
    using cast found ps' count cats
    by (auto simp: delete_products_cat_def findByIdAndDelete_def Let_def)
qed

theorem delete_product_and_empty_category_witness:
  "snd (delete_products_cat ''000000000000000000000003''
      \<lparr>Product = [\<lparr>oid = 1, name = ''Tea'', category = ''Drinks'', description = None, price = Some 5,
                    img = None, images = [], variants = ([] :: variant_imgs list)\<rparr>,
                  \<lparr>oid = 3, name = ''Chips'', category = ''Snacks'', description = None, price = Some 2,
                    img = None, images = [], variants = []\<rparr>],
       Category = [\<lparr>cname = ''Drinks'', position = 0\<rparr>, \<lparr>cname = ''Snacks'', position = 1\<rparr>]\<rparr>)
     = Reply 200 (Message ''Product deleted successfully'')
   \<and> fst (delete_products_cat ''000000000000000000000003''
      \<lparr>Product = [\<lparr>oid = 1, name = ''Tea'', category = ''Drinks'', description = None, price = Some 5,
                    img = None, images = [], variants = ([] :: variant_imgs list)\<rparr>,
                  \<lparr>oid = 3, name = ''Chips'', category = ''Snacks'', description = None, price = Some 2,
                    img = None, images = [], variants = []\<rparr>],
       Category = [\<lparr>cname = ''Drinks'', position = 0\<rparr>, \<lparr>cname = ''Snacks'', position = 1\<rparr>]\<rparr>)
     = \<lparr>Product = [\<lparr>oid = 1, name = ''Tea'', category = ''Drinks'', description = None, price = Some 5,
                    img = None, images = [], variants = []\<rparr>],
        Category = [\<lparr>cname = ''Drinks'', position = 0\<rparr>]\<rparr>"
  using delete_product_and_empty_category [of "''000000000000000000000003''"
      "\<lparr>Product = [\<lparr>oid = 1, name = ''Tea'', category = ''Drinks'', description = None, price = Some 5,
                    img = None, images = [], variants = ([] :: variant_imgs list)\<rparr>,
                  \<lparr>oid = 3, name = ''Chips'', category = ''Snacks'', description = None, price = Some 2,
                    img = None, images = [], variants = []\<rparr>],
       Category = [\<lparr>cname = ''Drinks'', position = 0\<rparr>, \<lparr>cname = ''Snacks'', position = 1\<rparr>]\<rparr>"
      "\<lparr>oid = 3, name = ''Chips'', category = ''Snacks'', description = None, price = Some 2,
                    img = None, images = [], variants = ([] :: variant_imgs list)\<rparr>"]
  by (simp add: castObjectId_3 delete_products_cat_def findByIdAndDelete_def
        countDocuments_category_def Category_deleteOne_def)

subsection \<open>Creating and listing products\<close>

text \<open>
  \<^bold>\<open>C7.\<close> In \<open>src/server.js\<close>, a payload that passes the schema's validation is
  answered with 201 and the created product, and a following \<open>GET /api/products\<close>
  lists that product, with the field values of the payload (an array path that the payload
  leaves out is the empty array). The identifier of the new document is one that no stored
  document has.
\<close>

theorem post_then_get:
  assumes "required_paths b = []" and "\<forall>q\<in>set ps. oid q \<noteq> i"
  shows "\<exists>p ps' l. post_products i b ps = (ps', Reply 201 (ProductBody p))
          \<and> get_products ps' = Reply 200 (ProductList l) \<and> p \<in> set l
          \<and> in_name b = Some (name p) \<and> in_category b = Some (category p)
          \<and> description p = in_description b \<and> price p = in_price b \<and> img p = in_img b
          \<and> images p = (case in_images b of None \<Rightarrow> [] | Some xs \<Rightarrow> xs)
          \<and> variants p = (case in_variants b of None \<Rightarrow> [] | Some vs \<Rightarrow> vs)"
proof -
  from assms(2) have fresh: "\<not> list_ex (\<lambda>q. oid q = i) ps"
    by (simp add: list_ex_iff)
  from assms(1) obtain n c where nc: "in_name b = Some n" "in_category b = Some c"
    by (cases "in_name b"; cases "in_category b") (auto simp: required_paths_def split: if_splits)
  have "post_products i b ps = (ps @ [new_Product i b], Reply 201 (ProductBody (new_Product i b)))"
    using assms(1) fresh by (simp add: post_products_def save_product_def)
  moreover have "get_products (ps @ [new_Product i b]) = Reply 200 (ProductList (ps @ [new_Product i b]))"
    by (simp add: get_products_def)
  ultimately show ?thesis
    using nc by (auto simp: new_Product_def)
qed

theorem post_then_get_witness:
  "required_paths \<lparr>in_name = Some ''Tea'', in_category = Some ''Drinks'', in_description = Some ''Green'',
        in_price = Some 5, in_img = None, in_images = None, in_variants = (None :: variant list option)\<rparr> = []
   \<and> (\<exists>p ps' l.
        post_products 1 \<lparr>in_name = Some ''Tea'', in_category = Some ''Drinks'', in_description = Some ''Green'',
          in_price = Some 5, in_img = None, in_images = None, in_variants = (None :: variant list option)\<rparr> []
          = (ps', Reply 201 (ProductBody p))
        \<and> get_products ps' = Reply 200 (ProductList l) \<and> p \<in> set l
        \<and> ''Tea'' = name p \<and> ''Drinks'' = category p \<and> description p = Some ''Green''
        \<and> price p = Some 5 \<and> img p = None \<and> images p = [] \<and> variants p = [])"
  using post_then_get [of "\<lparr>in_name = Some ''Tea'', in_category = Some ''Drinks'', in_description = Some ''Green'',
        in_price = Some 5, in_img = None, in_images = None, in_variants = (None :: variant list option)\<rparr>" "[]" 1]
  by (simp add: required_paths_def)

subsection \<open>Renaming a category\<close>






subsection \<open>Find-or-create of a category\<close>

lemma fold_highest_position:
  "position (fold (\<lambda>d best. if position best < position d then d else best) cs c)
     = Max (position ` set (c # cs))"
proof (induction cs arbitrary: c)
  case Nil
  then show ?case by simp
next
  case (Cons d cs)
  let ?b = "if position c < position d then d else c"
  have "position (fold (\<lambda>d best. if position best < position d then d else best) (d # cs) c)
          = Max (position ` set (?b # cs))"
    using Cons.IH [of ?b] by simp
  also have "\<dots> = Max (position ` set (c # d # cs))"
  proof (cases "cs = []")
    case True
    then show ?thesis by (simp add: max_def)
  next
    case False
    then show ?thesis by (simp add: max_def)
  qed
  finally show ?case .
qed

lemma newPosition_eq:
  "(case Category_findOne_sort_desc cats of Some h \<Rightarrow> position h + 1 | None \<Rightarrow> 0)
     = (if cats = [] then 0 else Max (position ` set cats) + 1)"
proof (cases cats)
  case Nil
  then show ?thesis by (simp add: Category_findOne_sort_desc_def)
next
  case (Cons c cs)
  then show ?thesis
    using fold_highest_position [of cs c] by (simp add: Category_findOne_sort_desc_def)
qed

text \<open>
  \<^bold>\<open>C2.\<close> \<open>findOrCreateCategory\<close> looks the name up and returns the category it
  finds, leaving the collection alone. When no category has the name, it inserts one whose
  position is the greatest position in the collection plus one, or 0 for the empty
  collection. \<open>POST /api/products\<close> with a valid payload whose category does not exist
  yet therefore stores the product and that new category. The name is not empty: the
  schema's \<open>required\<close> refuses an empty name.
\<close>

theorem find_or_create_category:
  assumes "categoryName \<noteq> []"
  shows "(case find (\<lambda>c. cname c = categoryName) cats of
            Some found \<Rightarrow> findOrCreateCategory (Some categoryName) cats = Inr (found, cats)
          | None \<Rightarrow>
              findOrCreateCategory (Some categoryName) cats
                = Inr (\<lparr>cname = categoryName,
                         position = (if cats = [] then 0 else Max (position ` set cats) + 1)\<rparr>,
                       cats @ [\<lparr>cname = categoryName,
                         position = (if cats = [] then 0 else Max (position ` set cats) + 1)\<rparr>]))
       \<and> (in_category b = Some categoryName \<and> find (\<lambda>c. cname c = categoryName) cats = None
            \<and> required_paths b = [] \<and> (\<forall>q\<in>set ps. oid q \<noteq> i) \<longrightarrow>
           post_products_cat i b \<lparr>Product = ps, Category = cats\<rparr>
             = (\<lparr>Product = ps @ [new_Product i b],
                 Category = cats @ [\<lparr>cname = categoryName,
                   position = (if cats = [] then 0 else Max (position ` set cats) + 1)\<rparr>]\<rparr>,
                Reply 201 (ProductBody (new_Product i b))))"
proof -
  let ?new = "\<lparr>cname = categoryName,
                position = (if cats = [] then 0 else Max (position ` set cats) + 1)\<rparr>"
  have created: "findOrCreateCategory (Some categoryName) cats = Inr (?new, cats @ [?new])"
    if none: "find (\<lambda>c. cname c = categoryName) cats = None"
  proof -
    from none have "\<not> list_ex (\<lambda>c. cname c = categoryName) cats"
      by (simp add: find_None_iff list_ex_iff)
    with none assms show ?thesis
      by (simp add: findOrCreateCategory_def Category_findOne_def save_category_def
            newPosition_eq Let_def)
  qed
  have looked_up: "findOrCreateCategory (Some categoryName) cats = Inr (found, cats)"
    if "find (\<lambda>c. cname c = categoryName) cats = Some found" for found
    using that by (simp add: findOrCreateCategory_def Category_findOne_def)
  have posted: "post_products_cat i b \<lparr>Product = ps, Category = cats\<rparr>
             = (\<lparr>Product = ps @ [new_Product i b], Category = cats @ [?new]\<rparr>,
                Reply 201 (ProductBody (new_Product i b)))"
    if "in_category b = Some categoryName" and none: "find (\<lambda>c. cname c = categoryName) cats = None"
      and "required_paths b = []" and "\<forall>q\<in>set ps. oid q \<noteq> i"
  proof -
    from that(4) have "\<not> list_ex (\<lambda>q. oid q = i) ps" by (simp add: list_ex_iff)
    with that(1,3) created [OF none] show ?thesis
      by (simp add: post_products_cat_def save_product_def)
  qed
  from created looked_up posted show ?thesis
    by (auto split: option.splits)
qed

theorem find_or_create_category_witness:
  "findOrCreateCategory (Some ''Snacks'') [\<lparr>cname = ''Drinks'', position = 4\<rparr>, \<lparr>cname = ''Dairy'', position = 2\<rparr>]
     = Inr (\<lparr>cname = ''Snacks'', position = 5\<rparr>,
            [\<lparr>cname = ''Drinks'', position = 4\<rparr>, \<lparr>cname = ''Dairy'', position = 2\<rparr>,
             \<lparr>cname = ''Snacks'', position = 5\<rparr>])
   \<and> findOrCreateCategory (Some ''Snacks'') [] = Inr (\<lparr>cname = ''Snacks'', position = 0\<rparr>, [\<lparr>cname = ''Snacks'', position = 0\<rparr>])
   \<and> post_products_cat 1
        \<lparr>in_name = Some ''Chips'', in_category = Some ''Snacks'', in_description = None,
          in_price = Some 2, in_img = None, in_images = None, in_variants = (None :: variant_imgs list option)\<rparr>
        \<lparr>Product = [], Category = [\<lparr>cname = ''Drinks'', position = 4\<rparr>, \<lparr>cname = ''Dairy'', position = 2\<rparr>]\<rparr>
     = (\<lparr>Product = [\<lparr>oid = 1, name = ''Chips'', category = ''Snacks'', description = None,
                       price = Some 2, img = None, images = [], variants = []\<rparr>],
         Category = [\<lparr>cname = ''Drinks'', position = 4\<rparr>, \<lparr>cname = ''Dairy'', position = 2\<rparr>,
                     \<lparr>cname = ''Snacks'', position = 5\<rparr>]\<rparr>,
        Reply 201 (ProductBody \<lparr>oid = 1, name = ''Chips'', category = ''Snacks'', description = None,
                       price = Some 2, img = None, images = [], variants = []\<rparr>))"
  using find_or_create_category [of "''Snacks''"
          "[\<lparr>cname = ''Drinks'', position = 4\<rparr>, \<lparr>cname = ''Dairy'', position = 2\<rparr>]"
          "\<lparr>in_name = Some ''Chips'', in_category = Some ''Snacks'', in_description = None,
            in_price = Some 2, in_img = None, in_images = None, in_variants = (None :: variant_imgs list option)\<rparr>"
          "[]" 1]
        find_or_create_category [of "''Snacks''" "[]"
          "\<lparr>in_name = Some ''Chips'', in_category = Some ''Snacks'', in_description = None,
            in_price = Some 2, in_img = None, in_images = None, in_variants = (None :: variant_imgs list option)\<rparr>"
          "[]" 1]
  by (simp add: required_paths_def new_Product_def)

subsection \<open>\<open>Promise.all\<close>\<close>

lemma those_map_Some: "those (map Some vs) = Some vs"
  by (induction vs) simp_all

lemma join_all_fulfilled:
  assumes "length slots = length vs"
    and "\<forall>k<length vs. slots ! k = None \<or> slots ! k = Some (vs ! k)"
    and "\<forall>k<length vs. slots ! k = None \<longrightarrow> k \<in> set ord"
  shows "join_all (map Inr vs) slots ord = Fulfilled vs"
  using assms
proof (induction ord arbitrary: slots)
  case Nil
  have "slots ! k = map Some vs ! k" if "k < length slots" for k
    using Nil that by (metis empty_iff list.set(1) nth_map)
  with Nil.prems(1) have "slots = map Some vs"
    by (intro nth_equalityI) simp_all
  then show ?case by (simp add: those_map_Some)
next
  case (Cons i ord)
  show ?case
  proof (cases "i < length vs")
    case True
    let ?slots = "slots[i := Some (vs ! i)]"
    have "join_all (map Inr vs) ?slots ord = Fulfilled vs"
    proof (rule Cons.IH)
      show "length ?slots = length vs" using Cons.prems(1) by simp
      show "\<forall>k<length vs. ?slots ! k = None \<or> ?slots ! k = Some (vs ! k)"
        using Cons.prems(1,2) True by (auto simp: nth_list_update)
      show "\<forall>k<length vs. ?slots ! k = None \<longrightarrow> k \<in> set ord"
        using Cons.prems(1,3) True by (auto simp: nth_list_update split: if_splits)
    qed
    with True show ?thesis by simp
  next
    case False
    have "join_all (map Inr vs) slots ord = Fulfilled vs"
    proof (rule Cons.IH)
      show "length slots = length vs" by (rule Cons.prems(1))
      show "\<forall>k<length vs. slots ! k = None \<or> slots ! k = Some (vs ! k)" by (rule Cons.prems(2))
      show "\<forall>k<length vs. slots ! k = None \<longrightarrow> k \<in> set ord"
        using Cons.prems(3) False by auto
    qed
    with False show ?thesis by simp
  qed
qed

lemma Promise_all_fulfilled:
  assumes "{..<length vs} \<subseteq> set ord"
  shows "Promise_all (map Inr vs) ord = Fulfilled vs"
  unfolding Promise_all_def using assms
  by (intro join_all_fulfilled) auto

subsection \<open>Reordering the categories\<close>

lemma update_first_distinct_key:
  "distinct (map g xs) \<Longrightarrow>
     update_first (\<lambda>x. g x = k) f xs = map (\<lambda>x. if g x = k then f x else x) xs"
proof (induction xs)
  case Nil
  then show ?case by simp
next
  case (Cons x xs)
  show ?case
  proof (cases "g x = k")
    case True
    with Cons.prems have "\<forall>y\<in>set xs. g y \<noteq> k" by (auto simp: image_iff)
    then have "map (\<lambda>x. if g x = k then f x else x) xs = xs" by (simp add: map_idI)
    with True show ?thesis by simp
  next
    case False
    with Cons show ?thesis by simp
  qed
qed

lemma updateOne_position_map:
  "distinct (map cname cats) \<Longrightarrow>
     updateOne_position n k cats = map (\<lambda>c. if cname c = n then c\<lparr>position := k\<rparr> else c) cats"
  unfolding updateOne_position_def by (rule update_first_distinct_key)

lemma set_position_at_map:
  "distinct (map cname cats) \<Longrightarrow>
     set_position_at names i cats =
       (if i < length names
        then map (\<lambda>c. if cname c = names ! i then c\<lparr>position := int i\<rparr> else c) cats
        else cats)"
  by (simp add: set_position_at_def updateOne_position_map)

lemma set_position_at_names:
  "distinct (map cname cats) \<Longrightarrow> map cname (set_position_at names i cats) = map cname cats"
  by (simp add: set_position_at_map)

lemma reorder_fold_names:
  "distinct (map cname cats) \<Longrightarrow> map cname (fold (set_position_at names) ord cats) = map cname cats"
proof (induction ord arbitrary: cats)
  case Nil
  then show ?case by simp
next
  case (Cons i ord)
  from Cons.prems have "distinct (map cname (set_position_at names i cats))"
    by (simp add: set_position_at_names)
  from Cons.IH [OF this] Cons.prems show ?case
    by (simp add: set_position_at_names)
qed

lemma reorder_fold_untouched:
  assumes "distinct (map cname cats)" and "j < length cats"
    and "\<not> listed_in names ord (cname (cats ! j))"
  shows "fold (set_position_at names) ord cats ! j = cats ! j"
  using assms
proof (induction ord arbitrary: cats)
  case Nil
  then show ?case by simp
next
  case (Cons i ord)
  let ?cats1 = "set_position_at names i cats"
  have names1: "map cname ?cats1 = map cname cats"
    using Cons.prems(1) by (rule set_position_at_names)
  then have len1: "length ?cats1 = length cats" by (metis length_map)
  have n1: "cname (?cats1 ! j) = cname (cats ! j)"
    using names1 len1 Cons.prems(2) by (metis nth_map)
  have "fold (set_position_at names) ord ?cats1 ! j = ?cats1 ! j"
  proof (rule Cons.IH)
    show "distinct (map cname ?cats1)" using names1 Cons.prems(1) by simp
    show "j < length ?cats1" using len1 Cons.prems(2) by simp
    show "\<not> listed_in names ord (cname (?cats1 ! j))"
      using Cons.prems(3) n1 by (simp add: listed_in_def)
  qed
  moreover have "?cats1 ! j = cats ! j"
    using Cons.prems by (auto simp: set_position_at_map listed_in_def)
  ultimately show ?case by simp
qed

lemma reorder_fold_listed:
  assumes "distinct (map cname cats)" and "j < length cats"
    and "listed_in names ord (cname (cats ! j))"
  shows "\<exists>k\<in>set ord. k < length names \<and> names ! k = cname (cats ! j)
           \<and> position (fold (set_position_at names) ord cats ! j) = int k"
  using assms
proof (induction ord arbitrary: cats)
  case Nil
  then show ?case by (simp add: listed_in_def)
next
  case (Cons i ord)
  let ?cats1 = "set_position_at names i cats"
  have names1: "map cname ?cats1 = map cname cats"
    using Cons.prems(1) by (rule set_position_at_names)
  then have len1: "length ?cats1 = length cats" by (metis length_map)
  have n1: "cname (?cats1 ! j) = cname (cats ! j)"
    using names1 len1 Cons.prems(2) by (metis nth_map)
  have d1: "distinct (map cname ?cats1)" using names1 Cons.prems(1) by simp
  have j1: "j < length ?cats1" using len1 Cons.prems(2) by simp
  show ?case
  proof (cases "listed_in names ord (cname (cats ! j))")
    case True
    then have "listed_in names ord (cname (?cats1 ! j))" using n1 by simp
    from Cons.IH [OF d1 j1 this] obtain k where "k \<in> set ord" "k < length names"
      "names ! k = cname (cats ! j)" "position (fold (set_position_at names) ord ?cats1 ! j) = int k"
      using n1 by auto
    then show ?thesis by auto
  next
    case False
    then have "\<not> listed_in names ord (cname (?cats1 ! j))" using n1 by simp
    from reorder_fold_untouched [OF d1 j1 this]
    have R: "fold (set_position_at names) ord ?cats1 ! j = ?cats1 ! j" .
    from False Cons.prems(3) have i: "i < length names" "names ! i = cname (cats ! j)"
      by (auto simp: listed_in_def)
    with Cons.prems(1,2) have "position (?cats1 ! j) = int i"
      by (simp add: set_position_at_map)
    with R i show ?thesis by simp
  qed
qed

text \<open>
  \<^bold>\<open>C8.\<close> \<open>PUT /api/categories/order\<close> answers 200 in whatever order the store
  carries the updates out, also when a listed name matches no document. A category whose
  name is listed gets as position an index at which its name stands in the list (the
  index, when the list names it once); a category whose name is not listed is unchanged,
  and no name changes. The unique index on the category name is the hypothesis.
\<close>

theorem reorder_categories:
  assumes "distinct (map cname (Category s))" and "set ord = {..<length orderedCategories}"
  shows "snd (put_categories_order ord orderedCategories s)
           = Reply 200 (Message ''Category order updated successfully.'')
       \<and> Product (fst (put_categories_order ord orderedCategories s)) = Product s
       \<and> map cname (Category (fst (put_categories_order ord orderedCategories s)))
           = map cname (Category s)
       \<and> (\<forall>j<length (Category s).
            if cname (Category s ! j) \<in> set orderedCategories
            then \<exists>k<length orderedCategories. orderedCategories ! k = cname (Category s ! j)
                   \<and> position (Category (fst (put_categories_order ord orderedCategories s)) ! j) = int k
            else Category (fst (put_categories_order ord orderedCategories s)) ! j = Category s ! j)"
proof -
  let ?n = "length orderedCategories"
  let ?cats' = "fold (set_position_at orderedCategories) ord (Category s)"
  have "Promise_all (map Inr [0..<?n]) ord = Fulfilled [0..<?n]"
    using assms(2) by (intro Promise_all_fulfilled) simp
  then have reply: "snd (put_categories_order ord orderedCategories s)
           = Reply 200 (Message ''Category order updated successfully.'')"
    by (simp add: put_categories_order_def Let_def)
  have state: "fst (put_categories_order ord orderedCategories s) = s\<lparr>Category := ?cats'\<rparr>"
    by (simp add: put_categories_order_def Let_def)
  have listed: "listed_in orderedCategories ord c \<longleftrightarrow> c \<in> set orderedCategories" for c
    using assms(2) by (auto simp: listed_in_def in_set_conv_nth)
  have names: "map cname ?cats' = map cname (Category s)"
    using assms(1) by (rule reorder_fold_names)
  have each: "if cname (Category s ! j) \<in> set orderedCategories
            then \<exists>k<length orderedCategories. orderedCategories ! k = cname (Category s ! j)
                   \<and> position (?cats' ! j) = int k
            else ?cats' ! j = Category s ! j" if j: "j < length (Category s)" for j
  proof (cases "cname (Category s ! j) \<in> set orderedCategories")
    case True
    then have "listed_in orderedCategories ord (cname (Category s ! j))" by (simp add: listed)
    from reorder_fold_listed [OF assms(1) j this] True show ?thesis by auto
  next
    case False
    then have "\<not> listed_in orderedCategories ord (cname (Category s ! j))" by (simp add: listed)
    from reorder_fold_untouched [OF assms(1) j this] False show ?thesis by simp
  qed
  show ?thesis
    unfolding state using reply names each by simp
qed

theorem reorder_categories_witness:
  "snd (put_categories_order [2, 0, 1] [''Snacks'', ''Ghost'', ''Drinks'']
     \<lparr>Product = ([] :: variant_imgs product list),
      Category = [\<lparr>cname = ''Drinks'', position = 0\<rparr>, \<lparr>cname = ''Dairy'', position = 1\<rparr>,
                  \<lparr>cname = ''Snacks'', position = 2\<rparr>]\<rparr>)
     = Reply 200 (Message ''Category order updated successfully.'')
   \<and> Category (fst (put_categories_order [2, 0, 1] [''Snacks'', ''Ghost'', ''Drinks'']
     \<lparr>Product = ([] :: variant_imgs product list),
      Category = [\<lparr>cname = ''Drinks'', position = 0\<rparr>, \<lparr>cname = ''Dairy'', position = 1\<rparr>,
                  \<lparr>cname = ''Snacks'', position = 2\<rparr>]\<rparr>))
     = [\<lparr>cname = ''Drinks'', position = 2\<rparr>, \<lparr>cname = ''Dairy'', position = 1\<rparr>,
        \<lparr>cname = ''Snacks'', position = 0\<rparr>]"
proof -
  let ?s = "\<lparr>Product = ([] :: variant_imgs product list),
      Category = [\<lparr>cname = ''Drinks'', position = 0\<rparr>, \<lparr>cname = ''Dairy'', position = 1\<rparr>,
                  \<lparr>cname = ''Snacks'', position = 2\<rparr>]\<rparr>"
  have d: "distinct (map cname (Category ?s))" by simp
  have o: "set [2, 0, 1] = {..<length [''Snacks'', ''Ghost'', ''Drinks'']}" by auto
  have "Category (fst (put_categories_order [2, 0, 1] [''Snacks'', ''Ghost'', ''Drinks''] ?s))
     = [\<lparr>cname = ''Drinks'', position = 2\<rparr>, \<lparr>cname = ''Dairy'', position = 1\<rparr>,
        \<lparr>cname = ''Snacks'', position = 0\<rparr>]"
    by (simp add: put_categories_order_def set_position_at_def updateOne_position_def Let_def)
  with reorder_categories [OF d o] show ?thesis by simp
qed

subsection \<open>Uploads that fail\<close>

lemma join_all_rejected:
  assumes "k < length outs" and "outs ! k = Inl e" and "k \<in> set ord"
  shows "\<exists>e'. join_all outs slots ord = Rejected e'"
  using assms(3)
proof (induction ord arbitrary: slots)
  case Nil
  then show ?case by simp
next
  case (Cons i ord)
  show ?case
  proof (cases "i < length outs")
    case True
    show ?thesis
    proof (cases "outs ! i")
      case (Inl e')
      with True show ?thesis by simp
    next
      case (Inr v)
      with assms(2) have "i \<noteq> k" by auto
      with Cons.prems have "k \<in> set ord" by simp
      from Cons.IH[OF this] True Inr show ?thesis by simp
    qed
  next
    case False
    with assms(1) have "i \<noteq> k" by auto
    with Cons.prems have "k \<in> set ord" by simp
    from Cons.IH[OF this] False show ?thesis by simp
  qed
qed

lemma Promise_all_rejected:
  assumes "k < length outs" and "outs ! k = Inl e" and "k \<in> set ord"
  shows "\<exists>e'. Promise_all outs ord = Rejected e'"
  unfolding Promise_all_def using assms by (rule join_all_rejected)

lemma uploadPromises_length [simp]: "length (uploadPromises cloud fs) = length fs"
  by (simp add: uploadPromises_def)

lemma uploadPromises_fails:
  "k < length fs \<Longrightarrow> upload_fails cloud fs k \<Longrightarrow> \<exists>e. uploadPromises cloud fs ! k = Inl e"
  by (auto simp: uploadPromises_def upload_fails_def uploadToCloudinary_def split: option.splits)

lemma uploadPromises_ok:
  assumes "\<forall>k<length fs. \<not> upload_fails cloud fs k"
  shows "uploadPromises cloud fs = map Inr (map (uploaded cloud fs) [0..<length fs])"
  using assms
  by (auto simp: uploadPromises_def upload_fails_def uploaded_def uploadToCloudinary_def)

text \<open>
  \<^bold>\<open>C5.\<close> When the upload of one of the files fails, the multipart create handler
  answers 500 and the product collection is what it was: nothing is saved, in whatever
  order the uploads complete. The update handler does the same.
\<close>

theorem upload_failure_fails_request:
  assumes "k < length (files req)" and "upload_fails cloud (files req) k"
    and "set ord = {..<length (files req)}"
  shows "post_products_multipart i cloud ord req ps
           = (ps, Reply 500 (Message ''Server error while creating product.''))
       \<and> put_products_multipart params_id cloud ord req ps
           = (ps, Reply 500 (Message ''Server error while updating product.''))"
proof -
  from uploadPromises_fails [OF assms(1,2)] obtain e
    where "uploadPromises cloud (files req) ! k = Inl e" ..
  moreover have "k < length (uploadPromises cloud (files req))" using assms(1) by simp
  moreover have "k \<in> set ord" using assms(1,3) by simp
  ultimately obtain e' where "Promise_all (uploadPromises cloud (files req)) ord = Rejected e'"
    using Promise_all_rejected by blast
  then show ?thesis
    by (simp add: post_products_multipart_def put_products_multipart_def
          split: sum.splits)
qed

theorem upload_failure_fails_request_witness:
  "upload_fails (\<lambda>k b. (if k = 1 then Some ''timeout'' else None, \<lparr>secure_url = ''https://cdn/'' @ b\<rparr>))
      [\<lparr>fieldname = ''images'', buffer = ''a''\<rparr>, \<lparr>fieldname = ''variant_image_0'', buffer = ''b''\<rparr>] 1
   \<and> post_products_multipart 7
        (\<lambda>k b. (if k = 1 then Some ''timeout'' else None, \<lparr>secure_url = ''https://cdn/'' @ b\<rparr>))
        [0, 1]
        \<lparr>body_name = Some ''Tea'', body_category = Some ''Drinks'', body_description = None,
          body_price = Some 5,
          body_variants = Json [\<lparr>v_size = Some ''S'', v_price = Some 1, v_image = None\<rparr>],
          body_existingImages = Missing,
          files = [\<lparr>fieldname = ''images'', buffer = ''a''\<rparr>,
                   \<lparr>fieldname = ''variant_image_0'', buffer = ''b''\<rparr>]\<rparr>
        []
     = ([], Reply 500 (Message ''Server error while creating product.''))"
proof -
  let ?cloud = "\<lambda>k b. (if k = (1::nat) then Some ''timeout'' else None, \<lparr>secure_url = ''https://cdn/'' @ b\<rparr>)"
  let ?req = "\<lparr>body_name = Some ''Tea'', body_category = Some ''Drinks'', body_description = None,
          body_price = Some 5,
          body_variants = Json [\<lparr>v_size = Some ''S'', v_price = Some 1, v_image = None\<rparr>],
          body_existingImages = Missing,
          files = [\<lparr>fieldname = ''images'', buffer = ''a''\<rparr>,
                   \<lparr>fieldname = ''variant_image_0'', buffer = ''b''\<rparr>]\<rparr>"
  have k: "1 < length (files ?req)" by simp
  have f: "upload_fails ?cloud (files ?req) 1" by (simp add: upload_fails_def)
  have o: "set [0, 1] = {..<length (files ?req)}" by auto
  from upload_failure_fails_request [OF k f o, of 7 "[]"] f show ?thesis by simp
qed

subsection \<open>Routing the uploaded URLs\<close>

lemma at_number_Some_iff:
  "at_number xs n = Some v \<longleftrightarrow> (\<exists>k. n = Some (int k) \<and> k < length xs \<and> v = xs ! k)"
proof (cases n)
  case None
  then show ?thesis by (simp add: at_number_def)
next
  case (Some z)
  show ?thesis
  proof (cases "0 \<le> z")
    case True
    then have z: "z = int (nat z)" by simp
    have "at_number xs n = Some v \<longleftrightarrow> nat z < length xs \<and> v = xs ! nat z"
      using Some True by (auto simp: at_number_def at_index_def)
    also have "\<dots> \<longleftrightarrow> (\<exists>k. n = Some (int k) \<and> k < length xs \<and> v = xs ! k)"
      using Some z by (metis nat_int option.inject)
    finally show ?thesis .
  next
    case False
    with Some show ?thesis by (auto simp: at_number_def)
  qed
qed

lemma images_no_variant_field: "\<not> startsWith ''images'' ''variant_image_''"
  by (simp add: startsWith_def)

lemma route_upload_length: "length (snd (route_upload fr acc)) = length (snd acc)"
  by (simp add: route_upload_def Let_def split: option.splits)

lemma route_upload_other:
  assumes "\<not> routes_to (fst fr) j"
  shows "snd (route_upload fr acc) ! j = snd acc ! j"
proof (cases "fieldname (fst fr) = ''images'' \<or> \<not> startsWith (fieldname (fst fr)) ''variant_image_''")
  case True
  then show ?thesis by (auto simp: route_upload_def Let_def)
next
  case False
  show ?thesis
  proof (cases "at_number (snd acc) (variantIndex (fieldname (fst fr)))")
    case None
    with False show ?thesis by (simp add: route_upload_def Let_def)
  next
    case (Some v)
    then obtain k where k: "variantIndex (fieldname (fst fr)) = Some (int k)" "k < length (snd acc)"
      by (auto simp: at_number_Some_iff)
    with assms False have "k \<noteq> j" by (auto simp: routes_to_def)
    with False Some k show ?thesis by (simp add: route_upload_def Let_def)
  qed
qed

lemma route_upload_hit:
  assumes "routes_to (fst fr) j" and "j < length (snd acc)"
  shows "snd (route_upload fr acc) ! j = (snd acc ! j)\<lparr>v_image := Some (secure_url (snd fr))\<rparr>"
proof -
  from assms(1) have s: "startsWith (fieldname (fst fr)) ''variant_image_''"
    and v: "variantIndex (fieldname (fst fr)) = Some (int j)"
    by (simp_all add: routes_to_def)
  from s have "fieldname (fst fr) \<noteq> ''images''"
    using images_no_variant_field by auto
  moreover from v assms(2) have "at_number (snd acc) (variantIndex (fieldname (fst fr))) = Some (snd acc ! j)"
    by (simp add: at_number_Some_iff)
  ultimately show ?thesis
    using s v assms(2) by (simp add: route_upload_def Let_def)
qed

lemma fold_route_length: "length (snd (fold route_upload frs acc)) = length (snd acc)"
  by (induction frs arbitrary: acc) (simp_all add: route_upload_length)

lemma fold_route_other:
  "\<forall>fr\<in>set frs. \<not> routes_to (fst fr) j \<Longrightarrow> snd (fold route_upload frs acc) ! j = snd acc ! j"
  by (induction frs arbitrary: acc) (simp_all add: route_upload_other)

lemma fold_route_once:
  assumes "k < length frs" and "routes_to (fst (frs ! k)) j"
    and "\<forall>m<length frs. m \<noteq> k \<longrightarrow> \<not> routes_to (fst (frs ! m)) j"
    and "j < length (snd acc)"
  shows "snd (fold route_upload frs acc) ! j
           = (snd acc ! j)\<lparr>v_image := Some (secure_url (snd (frs ! k)))\<rparr>"
  using assms
proof (induction frs arbitrary: k acc)
  case Nil
  then show ?case by simp
next
  case (Cons fr frs)
  show ?case
  proof (cases k)
    case 0
    have "\<forall>x\<in>set frs. \<not> routes_to (fst x) j"
    proof
      fix x assume "x \<in> set frs"
      then obtain m where "m < length frs" "frs ! m = x" by (auto simp: in_set_conv_nth)
      with Cons.prems(3) [rule_format, of "Suc m"] 0 show "\<not> routes_to (fst x) j" by auto
    qed
    then have "snd (fold route_upload frs (route_upload fr acc)) ! j = snd (route_upload fr acc) ! j"
      by (rule fold_route_other)
    with 0 Cons.prems(2,4) show ?thesis by (simp add: route_upload_hit)
  next
    case (Suc k')
    have "snd (fold route_upload frs (route_upload fr acc)) ! j
            = (snd (route_upload fr acc) ! j)\<lparr>v_image := Some (secure_url (snd (frs ! k')))\<rparr>"
    proof (rule Cons.IH)
      show "k' < length frs" using Cons.prems(1) Suc by simp
      show "routes_to (fst (frs ! k')) j" using Cons.prems(2) Suc by simp
      show "\<forall>m<length frs. m \<noteq> k' \<longrightarrow> \<not> routes_to (fst (frs ! m)) j"
        using Cons.prems(3) Suc by (metis Suc_less_eq length_Cons nat.inject nth_Cons_Suc)
      show "j < length (snd (route_upload fr acc))"
        using Cons.prems(4) by (simp add: route_upload_length)
    qed
    moreover have "\<not> routes_to (fst fr) j"
      using Cons.prems(3) [rule_format, of 0] Suc by simp
    ultimately show ?thesis
      using Suc by (simp add: route_upload_other)
  qed
qed


lemma uploads_fulfilled:
  assumes "\<forall>k<length fs. \<not> upload_fails cloud fs k" and "set ord = {..<length fs}"
  shows "Promise_all (uploadPromises cloud fs) ord = Fulfilled (map (uploaded cloud fs) [0..<length fs])"
proof -
  have "{..<length (map (uploaded cloud fs) [0..<length fs])} \<subseteq> set ord"
    using assms(2) by simp
  then show ?thesis
    unfolding uploadPromises_ok [OF assms(1)] by (rule Promise_all_fulfilled)
qed

text \<open>
  \<^bold>\<open>C1.\<close> A multipart create request carries a variants list of at least two entries, a
  file with field name \<open>variant_image_0\<close> and a file with field name
  \<open>variant_image_1\<close>, at any two places of \<open>req.files\<close>, and no further file that is
  routed to index 0 or 1. When the uploads succeed and the product passes validation, the
  product is saved and answered with 201, and its \<open>variants[0].image\<close> and
  \<open>variants[1].image\<close> are the URLs that the uploads of these two files returned, in
  whatever order the uploads complete.
\<close>

theorem variant_images_by_field_name:
  assumes "body_variants req = Json vs" and "2 \<le> length vs"
    and "i0 < length (files req)" and "fieldname (files req ! i0) = ''variant_image_0''"
    and "i1 < length (files req)" and "fieldname (files req ! i1) = ''variant_image_1''"
    and "\<forall>k<length (files req). k \<noteq> i0 \<longrightarrow> \<not> routes_to (files req ! k) 0"
    and "\<forall>k<length (files req). k \<noteq> i1 \<longrightarrow> \<not> routes_to (files req ! k) 1"
    and "\<forall>k<length (files req). \<not> upload_fails cloud (files req) k"
    and "set ord = {..<length (files req)}"
    and "body_name req \<noteq> None" and "body_name req \<noteq> Some []"
    and "body_category req \<noteq> None" and "body_category req \<noteq> Some []"
    and "\<forall>q\<in>set ps. oid q \<noteq> i"
  shows "\<exists>p. post_products_multipart i cloud ord req ps = (ps @ [p], Reply 201 (ProductBody p))
          \<and> length (variants p) = length vs
          \<and> v_image (variants p ! 0) = Some (secure_url (uploaded cloud (files req) i0))
          \<and> v_image (variants p ! 1) = Some (secure_url (uploaded cloud (files req) i1))"
proof -
  let ?fs = "files req"
  let ?rs = "map (uploaded cloud ?fs) [0..<length ?fs]"
  let ?frs = "zip ?fs ?rs"
  let ?acc = "route_all ?fs ?rs ([], vs)"
  let ?inp = "product_data req ?acc"
  have len: "length ?frs = length ?fs" by simp
  have nth: "?frs ! k = (?fs ! k, uploaded cloud ?fs k)" if "k < length ?fs" for k
    using that by simp
  have r0: "routes_to (?fs ! i0) 0"
    using assms(4) by (simp add: routes_to_def startsWith_def variantIndex_def at_index_def
        parseInt_def isWhiteSpace_def digitValue_def digitsValue_def Let_def)
  have r1: "routes_to (?fs ! i1) 1"
    using assms(6) by (simp add: routes_to_def startsWith_def variantIndex_def at_index_def
        parseInt_def isWhiteSpace_def digitValue_def digitsValue_def Let_def)
  have length_acc: "length (snd ?acc) = length vs"
    by (simp add: route_all_def fold_route_length)
  have slot0: "snd ?acc ! 0 = (vs ! 0)\<lparr>v_image := Some (secure_url (uploaded cloud ?fs i0))\<rparr>"
  proof -
    have a: "i0 < length ?frs" using assms(3) by simp
    have b: "routes_to (fst (?frs ! i0)) 0" using r0 assms(3) by simp
    have c: "\<forall>m<length ?frs. m \<noteq> i0 \<longrightarrow> \<not> routes_to (fst (?frs ! m)) 0"
      using assms(7) by simp
    have "0 < length vs" using assms(2) by arith
    then have d: "0 < length (snd (([] :: string list), vs))" by simp
    from fold_route_once [OF a b c d] assms(3) show ?thesis
      by (simp add: route_all_def)
  qed
  have slot1: "snd ?acc ! 1 = (vs ! 1)\<lparr>v_image := Some (secure_url (uploaded cloud ?fs i1))\<rparr>"
  proof -
    have a: "i1 < length ?frs" using assms(5) by simp
    have b: "routes_to (fst (?frs ! i1)) 1" using r1 assms(5) by simp
    have c: "\<forall>m<length ?frs. m \<noteq> i1 \<longrightarrow> \<not> routes_to (fst (?frs ! m)) 1"
      using assms(8) by simp
    have "1 < length vs" using assms(2) by arith
    then have d: "1 < length (snd (([] :: string list), vs))" by simp
    from fold_route_once [OF a b c d] assms(5) show ?thesis
      by (simp add: route_all_def)
  qed
  have joined: "Promise_all (uploadPromises cloud ?fs) ord = Fulfilled ?rs"
    using assms(9,10) by (rule uploads_fulfilled)
  have valid: "required_paths ?inp = []"
    using assms(11-14) by (simp add: required_paths_def product_data_def)
  have fresh: "\<not> list_ex (\<lambda>q. oid q = i) ps"
    using assms(15) by (simp add: list_ex_iff)
  have post: "post_products_multipart i cloud ord req ps
                = (ps @ [new_Product i ?inp], Reply 201 (ProductBody (new_Product i ?inp)))"
    using assms(1) joined valid fresh
    by (simp add: post_products_multipart_def parse_or_def save_product_def)
  have "0 < length (snd ?acc)" using length_acc assms(2) by arith
  then have vars: "variants (new_Product i ?inp) = snd ?acc"
    by (simp add: new_Product_def product_data_def)
  show ?thesis
    using post vars length_acc slot0 slot1 by simp
qed


theorem variant_images_by_field_name_witness:
  "\<exists>p. post_products_multipart 7 (\<lambda>k b. (None, \<lparr>secure_url = ''https://cdn/'' @ b\<rparr>)) [2, 0, 1]
          \<lparr>body_name = Some ''Tea'', body_category = Some ''Drinks'', body_description = None,
            body_price = Some 5,
            body_variants = Json [\<lparr>v_size = Some ''S'', v_price = Some 1, v_image = None\<rparr>,
                                  \<lparr>v_size = Some ''L'', v_price = Some 2, v_image = None\<rparr>],
            body_existingImages = Missing,
            files = [\<lparr>fieldname = ''images'', buffer = ''m''\<rparr>,
                     \<lparr>fieldname = ''variant_image_1'', buffer = ''b''\<rparr>,
                     \<lparr>fieldname = ''variant_image_0'', buffer = ''a''\<rparr>]\<rparr>
          []
        = ([p], Reply 201 (ProductBody p))
      \<and> length (variants p) = Suc (Suc 0)
      \<and> v_image (variants p ! 0) = Some ''https://cdn/a''
      \<and> v_image (variants p ! 1) = Some ''https://cdn/b''"
proof -
  let ?cloud = "\<lambda>(k::nat) b. (None :: string option, \<lparr>secure_url = ''https://cdn/'' @ b\<rparr>)"
  let ?vs = "[\<lparr>v_size = Some ''S'', v_price = Some 1, v_image = None\<rparr>,
              \<lparr>v_size = Some ''L'', v_price = Some 2, v_image = None\<rparr>]"
  let ?req = "\<lparr>body_name = Some ''Tea'', body_category = Some ''Drinks'', body_description = None,
            body_price = Some 5, body_variants = Json ?vs, body_existingImages = Missing,
            files = [\<lparr>fieldname = ''images'', buffer = ''m''\<rparr>,
                     \<lparr>fieldname = ''variant_image_1'', buffer = ''b''\<rparr>,
                     \<lparr>fieldname = ''variant_image_0'', buffer = ''a''\<rparr>]\<rparr>"
  have h1: "body_variants ?req = Json ?vs" by simp
  have h2: "2 \<le> length ?vs" by simp
  have h3: "2 < length (files ?req)" by simp
  have h4: "fieldname (files ?req ! 2) = ''variant_image_0''" by simp
  have h5: "1 < length (files ?req)" by simp
  have h6: "fieldname (files ?req ! 1) = ''variant_image_1''" by simp
  have n0: "\<not> routes_to \<lparr>fieldname = ''images'', buffer = ''m''\<rparr> 0"
    and n1: "\<not> routes_to \<lparr>fieldname = ''images'', buffer = ''m''\<rparr> 1"
    and n2: "\<not> routes_to \<lparr>fieldname = ''variant_image_1'', buffer = ''b''\<rparr> 0"
    and n3: "\<not> routes_to \<lparr>fieldname = ''variant_image_0'', buffer = ''a''\<rparr> 1"
    by code_simp+
  have h7: "\<forall>k<length (files ?req). k \<noteq> 2 \<longrightarrow> \<not> routes_to (files ?req ! k) 0"
    using n0 n2 by (auto simp: less_Suc_eq)
  have h8: "\<forall>k<length (files ?req). k \<noteq> 1 \<longrightarrow> \<not> routes_to (files ?req ! k) 1"
    using n1 n3 by (auto simp: less_Suc_eq)
  have h9: "\<forall>k<length (files ?req). \<not> upload_fails ?cloud (files ?req) k"
    by (simp add: upload_fails_def)
  have h10: "set [2, 0, 1] = {..<length (files ?req)}" by auto
  have h11: "body_name ?req \<noteq> None" "body_name ?req \<noteq> Some []"
    "body_category ?req \<noteq> None" "body_category ?req \<noteq> Some []" by simp_all
  have h15: "\<forall>q\<in>set ([] :: variant product list). oid q \<noteq> 7" by simp
  from variant_images_by_field_name [OF h1 h2 h3 h4 h5 h6 h7 h8 h9 h10 h11 h15]
  show ?thesis by (simp add: uploaded_def)
qed

subsection \<open>Files that address no variant\<close>

lemma map_upt_shift: "map h [a..<a + b] = map (\<lambda>k. h (a + k)) [0..<b]"
  by (rule nth_equalityI) simp_all

lemma zip_indexed_append:
  "zip (xs @ ys) (map h [0..<length (xs @ ys)])
     = zip xs (map h [0..<length xs]) @ zip ys (map (\<lambda>k. h (length xs + k)) [0..<length ys])"
proof -
  have "[0..<length (xs @ ys)] = [0..<length xs] @ [length xs..<length xs + length ys]"
    using upt_add_eq_append [of 0 "length xs" "length ys"] by simp
  then have "map h [0..<length (xs @ ys)]
               = map h [0..<length xs] @ map (\<lambda>k. h (length xs + k)) [0..<length ys]"
    by (simp only: map_append map_upt_shift)
  then show ?thesis by (simp only: zip_append length_map length_upt minus_nat.diff_0)
qed

lemma zip_indexed_Cons:
  "zip (y # ys) (map h [0..<length (y # ys)]) = (y, h 0) # zip ys (map (\<lambda>k. h (Suc k)) [0..<length ys])"
proof -
  have "[0..<Suc (length ys)] = 0 # map Suc [0..<length ys]"
    by (simp only: upt_conv_Cons zero_less_Suc map_Suc_upt)
  then have "map h [0..<length (y # ys)] = h 0 # map (\<lambda>k. h (Suc k)) [0..<length ys]"
    by (simp only: list.map map_map o_def length_Cons)
  then show ?thesis by (simp only: zip_Cons_Cons)
qed

lemma at_number_None_length:
  "at_number xs n = None \<Longrightarrow> length ys = length xs \<Longrightarrow> at_number ys n = None"
  by (auto simp: at_number_def at_index_def split: option.splits if_splits)

lemma route_upload_ignored:
  assumes "startsWith (fieldname f) ''variant_image_''"
    and "at_number vs (variantIndex (fieldname f)) = None"
    and "length (snd acc) = length vs"
  shows "route_upload (f, r) acc = acc"
proof -
  from assms(1) have "fieldname f \<noteq> ''images''"
    by (auto simp: startsWith_def)
  moreover from assms(2,3) have "at_number (snd acc) (variantIndex (fieldname f)) = None"
    by (rule at_number_None_length)
  ultimately show ?thesis
    using assms(1) by (simp add: route_upload_def Let_def)
qed

lemma route_all_ignored:
  assumes "startsWith (fieldname f) ''variant_image_''"
    and "at_number (snd acc) (variantIndex (fieldname f)) = None"
  shows "route_all (fs1 @ f # fs2) (map (uploaded cloud (fs1 @ f # fs2)) [0..<length (fs1 @ f # fs2)]) acc
       = route_all (fs1 @ fs2)
           (map (uploaded (without_upload (length fs1) cloud) (fs1 @ fs2)) [0..<length (fs1 @ fs2)]) acc"
proof -
  let ?n = "length fs1"
  let ?h = "uploaded cloud (fs1 @ f # fs2)"
  let ?h' = "uploaded (without_upload ?n cloud) (fs1 @ fs2)"
  have front: "map ?h [0..<?n] = map ?h' [0..<?n]"
    by (rule nth_equalityI) (simp_all add: uploaded_def without_upload_def nth_append)
  have later: "map (\<lambda>k. ?h (?n + Suc k)) [0..<length fs2] = map (\<lambda>k. ?h' (?n + k)) [0..<length fs2]"
    by (rule nth_equalityI) (simp_all add: uploaded_def without_upload_def nth_append)
  have whole: "zip (fs1 @ f # fs2) (map ?h [0..<length (fs1 @ f # fs2)])
          = zip fs1 (map ?h [0..<?n]) @ (f, ?h ?n) # zip fs2 (map (\<lambda>k. ?h (?n + Suc k)) [0..<length fs2])"
    unfolding zip_indexed_append zip_indexed_Cons by simp
  have less: "zip (fs1 @ fs2) (map ?h' [0..<length (fs1 @ fs2)])
          = zip fs1 (map ?h' [0..<?n]) @ zip fs2 (map (\<lambda>k. ?h' (?n + k)) [0..<length fs2])"
    unfolding zip_indexed_append by simp
  have skip: "route_upload (f, ?h ?n) (fold route_upload (zip fs1 (map ?h' [0..<?n])) acc)
                   = fold route_upload (zip fs1 (map ?h' [0..<?n])) acc"
    using assms(1,2) by (rule route_upload_ignored) (rule fold_route_length)
  show ?thesis
    unfolding route_all_def whole less front later by (simp add: skip)
qed


lemma rejected_replies:
  assumes "Promise_all (uploadPromises cloud (files req)) ord = Rejected e"
  shows "post_products_multipart i cloud ord req ps
           = (ps, Reply 500 (Message ''Server error while creating product.''))"
    and "put_products_multipart params_id cloud ord req ps
           = (ps, Reply 500 (Message ''Server error while updating product.''))"
  using assms
  by (simp_all add: post_products_multipart_def put_products_multipart_def split: sum.splits)

lemma failed_upload_rejects:
  assumes "k < length fs" and "upload_fails cloud fs k" and "set ord = {..<length fs}"
  shows "\<exists>e. Promise_all (uploadPromises cloud fs) ord = Rejected e"
proof -
  from uploadPromises_fails [OF assms(1,2)] obtain e
    where "uploadPromises cloud fs ! k = Inl e" ..
  moreover have "k < length (uploadPromises cloud fs)" using assms(1) by simp
  moreover have "k \<in> set ord" using assms(1,3) by simp
  ultimately show ?thesis using Promise_all_rejected by blast
qed

lemma upload_fails_without:
  assumes "k < length (fs1 @ fs2)"
  shows "upload_fails (without_upload (length fs1) cloud) (fs1 @ fs2) k
           = upload_fails cloud (fs1 @ f # fs2) (if k < length fs1 then k else Suc k)"
  using assms by (simp add: upload_fails_def without_upload_def nth_append Suc_diff_le)

lemma product_data_files: "product_data (req\<lparr>files := fs\<rparr>) acc = product_data req acc"
  by (simp add: product_data_def)

text \<open>
  \<^bold>\<open>C10.\<close> A file of a multipart create or update request whose field name starts with
  \<open>variant_image_\<close> and whose parsed index addresses no entry of the variants list
  (\<open>NaN\<close>, negative, or past the end) is ignored: routing its upload changes neither
  the image list nor the variants, and when its upload succeeds the handler returns the
  collection and the reply of the same request without that file, so it succeeds whenever
  that request does.
\<close>

theorem unaddressed_variant_file_ignored:
  assumes "files req = fs1 @ f # fs2"
    and "startsWith (fieldname f) ''variant_image_''"
    and "parse_or [] (body_variants req) = Inr vs"
    and "at_number vs (variantIndex (fieldname f)) = None"
    and "\<not> upload_fails cloud (files req) (length fs1)"
    and "set ord = {..<length (files req)}" and "set ord' = {..<length (fs1 @ fs2)}"
  shows "route_upload (f, r) (urls, vs) = (urls, vs)
       \<and> post_products_multipart i cloud ord req ps
           = post_products_multipart i (without_upload (length fs1) cloud) ord'
               (req\<lparr>files := fs1 @ fs2\<rparr>) ps
       \<and> put_products_multipart params_id cloud ord req ps
           = put_products_multipart params_id (without_upload (length fs1) cloud) ord'
               (req\<lparr>files := fs1 @ fs2\<rparr>) ps"
proof -
  let ?fs = "fs1 @ f # fs2" and ?fs' = "fs1 @ fs2"
  let ?cloud' = "without_upload (length fs1) cloud"
  let ?req' = "req\<lparr>files := ?fs'\<rparr>"
  have step: "route_upload (f, r) (urls, vs) = (urls, vs)"
    using assms(2,4) by (rule route_upload_ignored) simp
  have files': "files ?req' = ?fs'" by simp
  have parse': "parse_or [] (body_variants ?req') = Inr vs" using assms(3) by simp
  have handlers: "post_products_multipart i cloud ord req ps
           = post_products_multipart i ?cloud' ord' ?req' ps
       \<and> put_products_multipart params_id cloud ord req ps
           = put_products_multipart params_id ?cloud' ord' ?req' ps"
  proof (cases "\<exists>k<length ?fs. upload_fails cloud ?fs k")
    case True
    then obtain k where k: "k < length ?fs" "upload_fails cloud ?fs k" by blast
    with assms(1,5) have kn: "k \<noteq> length fs1" by auto
    from k assms(1,6) obtain e where "Promise_all (uploadPromises cloud (files req)) ord = Rejected e"
      using failed_upload_rejects [of k ?fs cloud ord] by auto
    note left = rejected_replies [OF this]
    define k' where "k' = (if k < length fs1 then k else k - 1)"
    have k': "k' < length ?fs'" "(if k' < length fs1 then k' else Suc k') = k"
      using k(1) kn by (auto simp: k'_def)
    then have "upload_fails ?cloud' ?fs' k'"
      using upload_fails_without [of k' fs1 fs2 cloud f] k(2) by simp
    with k'(1) assms(7) obtain e' where "Promise_all (uploadPromises ?cloud' (files ?req')) ord' = Rejected e'"
      using failed_upload_rejects [of k' ?fs' ?cloud' ord'] by auto
    note right = rejected_replies [OF this]
    from left right show ?thesis by simp
  next
    case False
    then have ok: "\<forall>k<length ?fs. \<not> upload_fails cloud ?fs k" by simp
    have ok': "\<forall>k<length ?fs'. \<not> upload_fails ?cloud' ?fs' k"
    proof (intro allI impI)
      fix k assume k: "k < length ?fs'"
      then have "(if k < length fs1 then k else Suc k) < length ?fs" by auto
      with ok have "\<not> upload_fails cloud ?fs (if k < length fs1 then k else Suc k)" by blast
      with upload_fails_without [OF k, of cloud f] show "\<not> upload_fails ?cloud' ?fs' k" by simp
    qed
    have joined: "Promise_all (uploadPromises cloud ?fs) ord
                    = Fulfilled (map (uploaded cloud ?fs) [0..<length ?fs])"
      using assms(1,6) by (intro uploads_fulfilled [OF ok]) simp
    have joined': "Promise_all (uploadPromises ?cloud' ?fs') ord'
                    = Fulfilled (map (uploaded ?cloud' ?fs') [0..<length ?fs'])"
      using assms(7) by (intro uploads_fulfilled [OF ok'])
    have routed: "route_all ?fs (map (uploaded cloud ?fs) [0..<length ?fs]) (urls', vs)
            = route_all ?fs' (map (uploaded ?cloud' ?fs') [0..<length ?fs']) (urls', vs)" for urls'
      using assms(2,4) by (intro route_all_ignored) simp_all
    have "post_products_multipart i cloud ord req ps
           = post_products_multipart i ?cloud' ord' ?req' ps"
      unfolding post_products_multipart_def parse' assms(3) product_data_files files' assms(1)
        joined joined' settled.case sum.case routed
      by (rule refl)
    moreover have "put_products_multipart params_id cloud ord req ps
           = put_products_multipart params_id ?cloud' ord' ?req' ps"
      unfolding put_products_multipart_def parse' assms(3) product_data_files files' assms(1)
        joined joined' settled.case sum.case routed
      by (simp split: sum.splits)
    ultimately show ?thesis by simp
  qed
  from step handlers show ?thesis by simp
qed


theorem unaddressed_variant_file_ignored_witness:
  "at_number [\<lparr>v_size = Some ''S'', v_price = Some 1, v_image = None\<rparr>] (variantIndex ''variant_image_abc'') = None
   \<and> at_number [\<lparr>v_size = Some ''S'', v_price = Some 1, v_image = None\<rparr>] (variantIndex ''variant_image_5'') = None
   \<and> post_products_multipart 7 (\<lambda>k b. (None, \<lparr>secure_url = ''https://cdn/'' @ b\<rparr>)) [Suc 0, 0]
        \<lparr>body_name = Some ''Tea'', body_category = Some ''Drinks'', body_description = None,
          body_price = Some 5,
          body_variants = Json [\<lparr>v_size = Some ''S'', v_price = Some 1, v_image = None\<rparr>],
          body_existingImages = Missing,
          files = [\<lparr>fieldname = ''variant_image_0'', buffer = ''a''\<rparr>,
                   \<lparr>fieldname = ''variant_image_abc'', buffer = ''x''\<rparr>]\<rparr>
        []
     = post_products_multipart 7
        (without_upload (Suc 0) (\<lambda>k b. (None, \<lparr>secure_url = ''https://cdn/'' @ b\<rparr>))) [0]
        \<lparr>body_name = Some ''Tea'', body_category = Some ''Drinks'', body_description = None,
          body_price = Some 5,
          body_variants = Json [\<lparr>v_size = Some ''S'', v_price = Some 1, v_image = None\<rparr>],
          body_existingImages = Missing,
          files = [\<lparr>fieldname = ''variant_image_0'', buffer = ''a''\<rparr>]\<rparr>
        []
   \<and> post_products_multipart 7 (\<lambda>k b. (None, \<lparr>secure_url = ''https://cdn/'' @ b\<rparr>)) [Suc 0, 0]
        \<lparr>body_name = Some ''Tea'', body_category = Some ''Drinks'', body_description = None,
          body_price = Some 5,
          body_variants = Json [\<lparr>v_size = Some ''S'', v_price = Some 1, v_image = None\<rparr>],
          body_existingImages = Missing,
          files = [\<lparr>fieldname = ''variant_image_0'', buffer = ''a''\<rparr>,
                   \<lparr>fieldname = ''variant_image_abc'', buffer = ''x''\<rparr>]\<rparr>
        []
     = ([\<lparr>oid = 7, name = ''Tea'', category = ''Drinks'', description = None, price = None,
           img = None, images = [],
           variants = [\<lparr>v_size = Some ''S'', v_price = Some 1, v_image = Some ''https://cdn/a''\<rparr>]\<rparr>],
        Reply 201 (ProductBody \<lparr>oid = 7, name = ''Tea'', category = ''Drinks'', description = None,
           price = None, img = None, images = [],
           variants = [\<lparr>v_size = Some ''S'', v_price = Some 1, v_image = Some ''https://cdn/a''\<rparr>]\<rparr>))"
proof -
  let ?cloud = "\<lambda>(k::nat) b. (None :: string option, \<lparr>secure_url = ''https://cdn/'' @ b\<rparr>)"
  let ?vs = "[\<lparr>v_size = Some ''S'', v_price = Some 1, v_image = None\<rparr>]"
  let ?fa = "\<lparr>fieldname = ''variant_image_0'', buffer = ''a''\<rparr>"
  let ?fb = "\<lparr>fieldname = ''variant_image_abc'', buffer = ''x''\<rparr>"
  let ?req = "\<lparr>body_name = Some ''Tea'', body_category = Some ''Drinks'', body_description = None,
          body_price = Some 5, body_variants = Json ?vs, body_existingImages = Missing,
          files = [?fa, ?fb]\<rparr>"
  have h1: "files ?req = [?fa] @ ?fb # []" by simp
  have h2: "startsWith (fieldname ?fb) ''variant_image_''" by code_simp
  have h3: "parse_or [] (body_variants ?req) = Inr ?vs" by (simp add: parse_or_def)
  have h4: "at_number ?vs (variantIndex (fieldname ?fb)) = None" by code_simp
  have h4': "at_number ?vs (variantIndex ''variant_image_5'') = None" by code_simp
  have h5: "\<not> upload_fails ?cloud (files ?req) (length [?fa])" by (simp add: upload_fails_def)
  have h6: "set [Suc 0, 0] = {..<length (files ?req)}" by auto
  have h7: "set [0] = {..<length ([?fa] @ [])}" by auto
  have vi0: "variantIndex ''variant_image_0'' = Some 0"
    and vi1: "variantIndex ''variant_image_abc'' = None"
    and sw0: "startsWith ''variant_image_0'' ''variant_image_''"
    and sw1: "startsWith ''variant_image_abc'' ''variant_image_''"
    by code_simp+
  have ok: "\<forall>k<length (files ?req). \<not> upload_fails ?cloud (files ?req) k"
    by (simp add: upload_fails_def)
  have all_done: "Promise_all (uploadPromises ?cloud (files ?req)) [Suc 0, 0]
                  = Fulfilled (map (uploaded ?cloud (files ?req)) [0..<length (files ?req)])"
    using ok by (rule uploads_fulfilled) auto
  have results: "map (uploaded ?cloud (files ?req)) [0..<length (files ?req)]
                  = [\<lparr>secure_url = ''https://cdn/a''\<rparr>, \<lparr>secure_url = ''https://cdn/x''\<rparr>]"
    by (simp add: uploaded_def)
  have joined: "Promise_all (uploadPromises ?cloud (files ?req)) [Suc 0, 0]
                  = Fulfilled [\<lparr>secure_url = ''https://cdn/a''\<rparr>, \<lparr>secure_url = ''https://cdn/x''\<rparr>]"
    unfolding all_done results by (rule refl)
  have routed: "route_all (files ?req) [\<lparr>secure_url = ''https://cdn/a''\<rparr>, \<lparr>secure_url = ''https://cdn/x''\<rparr>] ([], ?vs)
                  = ([], [\<lparr>v_size = Some ''S'', v_price = Some 1, v_image = Some ''https://cdn/a''\<rparr>])"
    by (simp add: route_all_def route_upload_def vi0 vi1 sw0 sw1 at_number_def at_index_def)
  have run: "post_products_multipart 7 ?cloud [Suc 0, 0] ?req []
     = ([\<lparr>oid = 7, name = ''Tea'', category = ''Drinks'', description = None, price = None,
           img = None, images = [],
           variants = [\<lparr>v_size = Some ''S'', v_price = Some 1, v_image = Some ''https://cdn/a''\<rparr>]\<rparr>],
        Reply 201 (ProductBody \<lparr>oid = 7, name = ''Tea'', category = ''Drinks'', description = None,
           price = None, img = None, images = [],
           variants = [\<lparr>v_size = Some ''S'', v_price = Some 1, v_image = Some ''https://cdn/a''\<rparr>]\<rparr>))"
    unfolding post_products_multipart_def h3 sum.case joined settled.case routed
    by (simp add: save_product_def required_paths_def product_data_def new_Product_def)
  from unaddressed_variant_file_ignored [OF h1 h2 h3 h4 h5 h6 h7, of _ _ 7 "[]"] h4 h4' run
  show ?thesis by simp
qed

subsection \<open>Flat price or variants\<close>

text \<open>The create handler keeps the two apart: a saved product has the variants of the
  request and no price when the parsed list is not empty, and the submitted price and no
  variants when it is empty.\<close>

lemma create_price_or_variants:
  assumes "post_products_multipart i cloud ord req ps = (ps', Reply 201 (ProductBody p))"
    and "parse_or [] (body_variants req) = Inr vs"
  shows "p \<in> set ps' \<and> length (variants p) = length vs
       \<and> (if vs = [] then price p = body_price req else price p = None)"
proof -
  from assms obtain uploadResults where
    saved: "save_product i (product_data req (route_all (files req) uploadResults ([], vs))) ps = Inr (p, ps')"
    by (auto simp: post_products_multipart_def split: settled.splits sum.splits)
  let ?acc = "route_all (files req) uploadResults ([], vs)"
  have len: "length (snd ?acc) = length vs"
    by (simp add: route_all_def fold_route_length)
  from saved have p: "p = new_Product i (product_data req ?acc)" and ps': "ps' = ps @ [p]"
    by (auto simp: save_product_def split: if_splits)
  from p len have "length (variants p) = length vs"
    by (auto simp: new_Product_def product_data_def)
  moreover from p len have "if vs = [] then price p = body_price req else price p = None"
    by (auto simp: new_Product_def product_data_def)
  ultimately show ?thesis using ps' by simp
qed

text \<open>
  \<^bold>\<open>C9.\<close> A product saved by the multipart create or update handler should have a flat
  price only when its variants list is empty. The update handler builds the same object as
  the create handler, with \<open>price: undefined\<close> beside a non-empty variants list and
  \<open>variants: undefined\<close> beside an empty one, but hands it to \<open>findByIdAndUpdate\<close>,
  which leaves a path alone whose value is \<open>undefined\<close>. Updating a product that has the
  flat price 10 with one variant leaves a document with both the price 10 and the variant;
  updating a product that has a variant with an empty variants list and the price 12 leaves
  a document with both the price 12 and the old variant.
\<close>

theorem update_keeps_stored_price_and_variants:
  "put_products_multipart ''000000000000000000000004'' (\<lambda>k b. (None, \<lparr>secure_url = b\<rparr>)) []
      \<lparr>body_name = Some ''Tea'', body_category = Some ''Drinks'', body_description = None,
        body_price = None,
        body_variants = Json [\<lparr>v_size = Some ''S'', v_price = Some 3, v_image = None\<rparr>],
        body_existingImages = Missing, files = []\<rparr>
      [\<lparr>oid = 4, name = ''Tea'', category = ''Drinks'', description = None, price = Some 10,
         img = None, images = [], variants = []\<rparr>]
     = ([\<lparr>oid = 4, name = ''Tea'', category = ''Drinks'', description = None, price = Some 10,
           img = None, images = [],
           variants = [\<lparr>v_size = Some ''S'', v_price = Some 3, v_image = None\<rparr>]\<rparr>],
        Reply 200 (ProductBody
          \<lparr>oid = 4, name = ''Tea'', category = ''Drinks'', description = None, price = Some 10,
            img = None, images = [],
            variants = [\<lparr>v_size = Some ''S'', v_price = Some 3, v_image = None\<rparr>]\<rparr>))
   \<and> put_products_multipart ''000000000000000000000004'' (\<lambda>k b. (None, \<lparr>secure_url = b\<rparr>)) []
      \<lparr>body_name = Some ''Tea'', body_category = Some ''Drinks'', body_description = None,
        body_price = Some 12,
        body_variants = Json [],
        body_existingImages = Missing, files = []\<rparr>
      [\<lparr>oid = 4, name = ''Tea'', category = ''Drinks'', description = None, price = None,
         img = None, images = [],
         variants = [\<lparr>v_size = Some ''S'', v_price = Some 3, v_image = None\<rparr>]\<rparr>]
     = ([\<lparr>oid = 4, name = ''Tea'', category = ''Drinks'', description = None, price = Some 12,
           img = None, images = [],
           variants = [\<lparr>v_size = Some ''S'', v_price = Some 3, v_image = None\<rparr>]\<rparr>],
        Reply 200 (ProductBody
          \<lparr>oid = 4, name = ''Tea'', category = ''Drinks'', description = None, price = Some 12,
            img = None, images = [],
            variants = [\<lparr>v_size = Some ''S'', v_price = Some 3, v_image = None\<rparr>]\<rparr>))"
  by (simp add: put_products_multipart_def parse_or_def Promise_all_def uploadPromises_def
        route_all_def product_data_def findByIdAndUpdate_def apply_update_def castObjectId_4)

end
